theory Spec2Isabelle
  imports Main "HOL-Library.AList" "HOL-Library.Sublist" "HOL-Library.Multiset" "HOL-Library.Word"
    "HOL-Library.Char_ord" "HOL-Library.List_Lexorder"
begin

section \<open>The document model\<close>

text \<open>
  A decoded YAML value, as Go's \<^verbatim>\<open>any\<close> holds it after \<^verbatim>\<open>yaml.Unmarshal\<close>:
  \<^verbatim>\<open>nil\<close>, a bool, an int, a float64 (kept as its bit pattern; nothing below
  inspects it), a string, a \<^verbatim>\<open>[]any\<close> or a \<^verbatim>\<open>map[string]any\<close>.
  A Go map is an association list whose keys are pairwise distinct (\<open>wfm\<close> below);
  reading \<^verbatim>\<open>m[k]\<close> is \<open>map_of m k\<close> and the assignment \<^verbatim>\<open>m[k] = v\<close> is
  \<open>AList.update k v m\<close>.
\<close>

datatype yval =
    VNull
  | VBool bool
  | VInt int
  | VFloat "64 word"
  | VStr string
  | VSeq "yval list"
  | VMap "(string \<times> yval) list"

type_synonym doc = "(string \<times> yval) list"

fun wfv :: "yval \<Rightarrow> bool" where
  "wfv (VMap m) = (distinct (map fst m) \<and> (\<forall>kv \<in> set m. wfv (snd kv)))"
| "wfv (VSeq xs) = (\<forall>v \<in> set xs. wfv v)"
| "wfv _ = True"

definition wfm :: "doc \<Rightarrow> bool" where
  "wfm m = wfv (VMap m)"

section \<open>internal/common/util.go: DeepMerge\<close>

text \<open>
  \<^verbatim>\<open>
  func DeepMerge(first *map[string]any, second *map[string]any) *map[string]any {
      out := make(map[string]any)
      for k, v1 := range *first { out[k] = v1 }
      for k, v2 := range *second {
          if v1, ok := out[k]; ok {
              mapV1, ok1 := v1.(map[string]any)
              mapV2, ok2 := v2.(map[string]any)
              if ok1 && ok2 { out[k] = *DeepMerge(&mapV1, &mapV2) }
              else { out[k] = v2 }
          } else { out[k] = v2 }
      }
      return &out
  }
  \<close>
  \<open>copyInto\<close> is the first loop, \<open>mergeInto\<close> the second; both run over the entries in
  list order.
\<close>

fun copyInto :: "doc \<Rightarrow> doc \<Rightarrow> doc" where
  "copyInto out [] = out"
| "copyInto out ((k, v1) # rest) = copyInto (AList.update k v1 out) rest"

fun DeepMerge :: "doc \<Rightarrow> doc \<Rightarrow> doc"
  and mergeInto :: "doc \<Rightarrow> doc \<Rightarrow> doc" where
  "DeepMerge first second = mergeInto (copyInto [] first) second"
| "mergeInto out [] = out"
| "mergeInto out ((k, v2) # rest) =
     mergeInto
       (case map_of out k of
          Some v1 \<Rightarrow>
            (case v1 of
               VMap mapV1 \<Rightarrow>
                 (case v2 of
                    VMap mapV2 \<Rightarrow> AList.update k (VMap (DeepMerge mapV1 mapV2)) out
                  | _ \<Rightarrow> AList.update k v2 out)
             | _ \<Rightarrow> AList.update k v2 out)
        | None \<Rightarrow> AList.update k v2 out)
       rest"


section \<open>github.com/Masterminds/semver/v3: the part of the library the resolver calls\<close>

text \<open>
  The version resolver calls two functions of a dependency, \<^verbatim>\<open>semver.NewVersion\<close> and
  \<^verbatim>\<open>(*Version).Compare\<close>. \<open>takeNewerVersion\<close> below takes both as parameters.
  For evaluation on concrete version strings the two are modelled here after the
  library: a version is \<^verbatim>\<open>[v]MAJOR[.MINOR[.PATCH]][-PRE][+BUILD]\<close>, the three numbers
  fit 64 bits, and \<open>Compare\<close> orders by major, minor, patch and pre-release, ignoring the
  build metadata.
\<close>

record Version =
  major :: "64 word"
  minor :: "64 word"
  patch :: "64 word"
  pre :: string
  metadata :: string
  original :: string

definition isDigit :: "char \<Rightarrow> bool" where
  "isDigit c = (CHR ''0'' \<le> c \<and> c \<le> CHR ''9'')"

definition isIdentChar :: "char \<Rightarrow> bool" where
  "isIdentChar c =
     (isDigit c \<or> (CHR ''A'' \<le> c \<and> c \<le> CHR ''Z'') \<or> (CHR ''a'' \<le> c \<and> c \<le> CHR ''z'')
      \<or> c = CHR ''-'')"

text \<open>\<^verbatim>\<open>strings.Split(s, sep)\<close> for a one-character separator: never the empty list.\<close>

fun splitOn :: "char \<Rightarrow> string \<Rightarrow> string list" where
  "splitOn sep [] = [[]]"
| "splitOn sep (c # cs) =
     (if c = sep then [] # splitOn sep cs
      else (case splitOn sep cs of w # ws \<Rightarrow> (c # w) # ws | [] \<Rightarrow> [[c]]))"

text \<open>The text before the first occurrence of a character, and the text after it, if any.\<close>

fun cutAt :: "char \<Rightarrow> string \<Rightarrow> string \<times> string option" where
  "cutAt sep [] = ([], None)"
| "cutAt sep (c # cs) =
     (if c = sep then ([], Some cs)
      else (case cutAt sep cs of (w, r) \<Rightarrow> (c # w, r)))"

definition digitVal :: "char \<Rightarrow> int" where
  "digitVal c = of_char c - of_char (CHR ''0'')"

text \<open>
  \<^verbatim>\<open>strconv.ParseUint(s, 10, 64)\<close>: digits only, at least one, and a value below \<open>2^64\<close>
  (a range error otherwise).
\<close>

definition ParseUint :: "string \<Rightarrow> 64 word option" where
  "ParseUint s =
     (if s = [] \<or> \<not> list_all isDigit s then None
      else (let n = foldl (\<lambda>acc c. 10 * acc + digitVal c) (0::int) s
            in if n < 2 ^ 64 then Some (word_of_int n) else None))"

definition validIdents :: "string \<Rightarrow> bool" where
  "validIdents s = list_all (\<lambda>part. part \<noteq> [] \<and> list_all isIdentChar part) (splitOn CHR ''.'' s)"

definition NewVersion :: "string \<Rightarrow> Version option" where
  "NewVersion v =
     (let body = (case v of c # cs \<Rightarrow> if c = CHR ''v'' then cs else v | [] \<Rightarrow> v);
          (front, meta) = cutAt CHR ''+'' body;
          (core, prerel) = cutAt CHR ''-'' front;
          segs = splitOn CHR ''.'' core
      in if length segs > 3 \<or> \<not> list_all (\<lambda>s. ParseUint s \<noteq> None) segs then None
         else if (case prerel of Some p \<Rightarrow> \<not> validIdents p | None \<Rightarrow> False) then None
         else if (case meta of Some m \<Rightarrow> \<not> validIdents m | None \<Rightarrow> False) then None
         else Some \<lparr> major = the (ParseUint (segs ! 0)),
                     minor = (if length segs > 1 then the (ParseUint (segs ! 1)) else 0),
                     patch = (if length segs > 2 then the (ParseUint (segs ! 2)) else 0),
                     pre = (case prerel of Some p \<Rightarrow> p | None \<Rightarrow> []),
                     metadata = (case meta of Some m \<Rightarrow> m | None \<Rightarrow> []),
                     original = v \<rparr>)"

definition compareSegment :: "64 word \<Rightarrow> 64 word \<Rightarrow> int" where
  "compareSegment v o' = (if v < o' then - 1 else if v > o' then 1 else 0)"

definition comparePrePart :: "string \<Rightarrow> string \<Rightarrow> int" where
  "comparePrePart s o' =
     (if s = o' then 0
      else if s = [] then - 1
      else if o' = [] then 1
      else (case (ParseUint s, ParseUint o') of
              (None, None) \<Rightarrow> if s > o' then 1 else - 1
            | (Some si, None) \<Rightarrow> - 1
            | (None, Some oi) \<Rightarrow> 1
            | (Some si, Some oi) \<Rightarrow> if si > oi then 1 else - 1))"

fun comparePreParts :: "string list \<Rightarrow> string list \<Rightarrow> int" where
  "comparePreParts [] [] = 0"
| "comparePreParts (s # ss) [] =
     (let d = comparePrePart s [] in if d \<noteq> 0 then d else comparePreParts ss [])"
| "comparePreParts [] (p # ps) =
     (let d = comparePrePart [] p in if d \<noteq> 0 then d else comparePreParts [] ps)"
| "comparePreParts (s # ss) (p # ps) =
     (let d = comparePrePart s p in if d \<noteq> 0 then d else comparePreParts ss ps)"

definition comparePrerelease :: "string \<Rightarrow> string \<Rightarrow> int" where
  "comparePrerelease v o' = comparePreParts (splitOn CHR ''.'' v) (splitOn CHR ''.'' o')"

definition Compare :: "Version \<Rightarrow> Version \<Rightarrow> int" where
  "Compare v o' =
     (if compareSegment (major v) (major o') \<noteq> 0 then compareSegment (major v) (major o')
      else if compareSegment (minor v) (minor o') \<noteq> 0 then compareSegment (minor v) (minor o')
      else if compareSegment (patch v) (patch o') \<noteq> 0 then compareSegment (patch v) (patch o')
      else if pre v = [] \<and> pre o' = [] then 0
      else if pre v = [] then 1
      else if pre o' = [] then - 1
      else comparePrerelease (pre v) (pre o'))"

section \<open>internal/updater/github: takeNewerVersion\<close>

text \<open>
  \<^verbatim>\<open>
  func takeNewerVersion(existingVersion, remoteVersion string) (*semver.Version, error) {
      semverExisting, _ := semver.NewVersion(existingVersion)
      semverRemote, err := semver.NewVersion(remoteVersion)
      if err != nil { ...; return semverExisting, nil }
      if semverRemote.Compare(semverExisting) < 0 { return semverExisting, nil }
      else { return semverRemote, nil }
  }
  \<close>
  The returned error is \<^verbatim>\<open>nil\<close> on every path. The returned pointer is \<open>None\<close> for
  \<^verbatim>\<open>nil\<close> (an existing version that does not parse, with a remote that does not either).
  \<open>Compare\<close> with a \<^verbatim>\<open>nil\<close> argument dereferences it: the third result is that panic.
\<close>

datatype panic = IndexOutOfRange | NilDereference

datatype 'v resolved = Returned "'v option" | Panicked panic

definition takeNewerVersion ::
  "(string \<Rightarrow> 'v option) \<Rightarrow> ('v \<Rightarrow> 'v \<Rightarrow> int) \<Rightarrow> string \<Rightarrow> string \<Rightarrow> 'v resolved" where
  "takeNewerVersion newVersion compare existingVersion remoteVersion =
     (let semverExisting = newVersion existingVersion
      in case newVersion remoteVersion of
           None \<Rightarrow> Returned semverExisting
         | Some semverRemote \<Rightarrow>
             (case semverExisting of
                None \<Rightarrow> Panicked NilDereference
              | Some e \<Rightarrow>
                  if compare semverRemote e < 0 then Returned (Some e)
                  else Returned (Some semverRemote)))"

section \<open>internal/common/api.go: the manifest set and the rules\<close>

definition common_Kind :: string where
  "common_Kind = ''kind''"

record Modification =
  Expression :: string
  ValuesSelector :: "string list option"
  Kind :: string
  Reject :: string

record Manifests =
  Crds :: "doc list"
  Manifests :: "doc list"
  Version :: Version
  AppVersion :: string
  Values :: doc
  CrdsValues :: doc

section \<open>internal/packager/packager.go: FilterManifests\<close>

text \<open>\<^verbatim>\<open>strings.ToLower\<close> on ASCII text (resource kinds are ASCII identifiers).\<close>

definition toLowerChar :: "char \<Rightarrow> char" where
  "toLowerChar c =
     (case map_of (zip ''ABCDEFGHIJKLMNOPQRSTUVWXYZ'' ''abcdefghijklmnopqrstuvwxyz'') c of
        Some l \<Rightarrow> l
      | None \<Rightarrow> c)"

definition ToLower :: "string \<Rightarrow> string" where
  "ToLower s = map toLowerChar s"

text \<open>\<^verbatim>\<open>m["kind"].(string)\<close>: the kind, when the field is there and holds a string.\<close>

definition kindOf :: "doc \<Rightarrow> string option" where
  "kindOf m = (case map_of m common_Kind of Some (VStr kind) \<Rightarrow> Some kind | _ \<Rightarrow> None)"

text \<open>
  \<^verbatim>\<open>
  filteredManifests := make([]map[string]any, 0)
  deniedKinds := make(map[string]bool)
  for _, filter := range denyKindFilter { deniedKinds[strings.ToLower(filter)] = true }
  for _, m := range (*manifests).Manifests {
      if kind, ok := m["kind"].(string); ok && deniedKinds[strings.ToLower(kind)] { continue }
      filteredManifests = append(filteredManifests, m)
  }
  \<close>
  Reading a \<^verbatim>\<open>map[string]bool\<close> at a missing key gives \<^verbatim>\<open>false\<close>.
\<close>

fun denyLoop :: "(string \<times> bool) list \<Rightarrow> string list \<Rightarrow> (string \<times> bool) list" where
  "denyLoop deniedKinds [] = deniedKinds"
| "denyLoop deniedKinds (f # fs) = denyLoop (AList.update (ToLower f) True deniedKinds) fs"

definition readBool :: "(string \<times> bool) list \<Rightarrow> string \<Rightarrow> bool" where
  "readBool m k = (case map_of m k of Some b \<Rightarrow> b | None \<Rightarrow> False)"

fun filterLoop :: "(string \<times> bool) list \<Rightarrow> doc list \<Rightarrow> doc list \<Rightarrow> doc list" where
  "filterLoop deniedKinds filteredManifests [] = filteredManifests"
| "filterLoop deniedKinds filteredManifests (m # ms) =
     (case kindOf m of
        Some kind \<Rightarrow>
          if readBool deniedKinds (ToLower kind) then filterLoop deniedKinds filteredManifests ms
          else filterLoop deniedKinds (filteredManifests @ [m]) ms
      | None \<Rightarrow> filterLoop deniedKinds (filteredManifests @ [m]) ms)"

definition FilterManifests :: "Manifests \<Rightarrow> string list \<Rightarrow> Manifests" where
  "FilterManifests manifests denyKindFilter =
     (let deniedKinds = denyLoop [] denyKindFilter;
          filteredManifests = filterLoop deniedKinds [] (Manifests manifests)
      in \<lparr> Crds = Crds manifests,
           Manifests = filteredManifests,
           Version = Version manifests,
           AppVersion = AppVersion manifests,
           Values = Values manifests,
           CrdsValues = CrdsValues manifests \<rparr>)"

section \<open>Outcomes and the libraries behind the rule engine\<close>

text \<open>
  A call of the rule engine returns a value, returns an error, or panics (an index out of
  range, a nil pointer). Errors raised by the libraries are passed through as they are
  (\<open>External\<close>); the others are the ones this repository constructs itself.
\<close>

datatype error =
    External string
  | NoValuePathFound string
  | NotExactlyOneElement
  | WrappedNotMap
  | NoValidKind nat

datatype 'a outcome = Ok 'a | Err error | Panic panic

text \<open>
  The rule engine delegates to yq (\<^verbatim>\<open>yqlib\<close>), to \<^verbatim>\<open>yaml.v3\<close> and to Go's
  \<^verbatim>\<open>regexp\<close>. These are collaborators with a narrow interface, taken as parameters:
  \<open>'n\<close> is the type of yq's candidate nodes and \<open>'t\<close> the type of serialized YAML text.
  \<^item> \<open>yamlMarshal\<close>: \<^verbatim>\<open>yaml.Marshal\<close>;
  \<^item> \<open>decoderInit\<close>, \<open>decoderDecode\<close>: \<^verbatim>\<open>m.decoder.Init\<close> on the text, then
    \<^verbatim>\<open>m.decoder.Decode()\<close>;
  \<^item> \<open>EvaluateNodes\<close>: \<^verbatim>\<open>m.evaluator.EvaluateNodes(expr, node)\<close>, the matched nodes
    together with the candidate node as the evaluation leaves it (yq's assignment
    operators update the node in place);
  \<^item> \<open>PrintResults\<close>, \<open>yamlUnmarshal\<close>: the two steps of \<^verbatim>\<open>decodeResult\<close>;
  \<^item> \<open>regexpCompile\<close>: \<^verbatim>\<open>regexp.Compile\<close>, giving \<^verbatim>\<open>MatchString\<close> of the compiled
    pattern.
\<close>

record ('n, 't) libs =
  yamlMarshal :: "doc \<Rightarrow> error + 't"
  decoderInit :: "'t \<Rightarrow> error option"
  decoderDecode :: "'t \<Rightarrow> error + 'n"
  EvaluateNodes :: "string \<Rightarrow> 'n \<Rightarrow> error + ('n list \<times> 'n)"
  PrintResults :: "'n list \<Rightarrow> error + 't"
  yamlUnmarshal :: "'t \<Rightarrow> error + yval"
  regexpCompile :: "string \<Rightarrow> error + (string \<Rightarrow> bool)"

text \<open>
  \<^verbatim>\<open>
  func decodeResult[T any](m *modifier, result *list.List) (T, error) {
      ...
      if err := printer.PrintResults(result); err != nil { return zero, err }
      var v T
      if err := yaml.Unmarshal(out.Bytes(), &v); err != nil { return zero, err }
      return v, nil
  }
  \<close>
  At \<^verbatim>\<open>T = any\<close> the value is whatever the text holds (\<^verbatim>\<open>nil\<close> for a null or empty
  document). At \<^verbatim>\<open>T = *map[string]any\<close> a mapping gives a pointer to it, a null or empty
  document leaves the pointer \<^verbatim>\<open>nil\<close>, and any other value is a type error of
  \<^verbatim>\<open>yaml.Unmarshal\<close>.
\<close>

definition resultToAny :: "('n, 't) libs \<Rightarrow> 'n list \<Rightarrow> error + yval" where
  "resultToAny L result =
     (case PrintResults L result of
        Inl e \<Rightarrow> Inl e
      | Inr out \<Rightarrow> yamlUnmarshal L out)"

definition resultToMap :: "('n, 't) libs \<Rightarrow> 'n list \<Rightarrow> error + doc option" where
  "resultToMap L result =
     (case PrintResults L result of
        Inl e \<Rightarrow> Inl e
      | Inr out \<Rightarrow>
          (case yamlUnmarshal L out of
             Inl e \<Rightarrow> Inl e
           | Inr v \<Rightarrow>
               (case v of
                  VMap m \<Rightarrow> Inr (Some m)
                | VNull \<Rightarrow> Inr None
                | _ \<Rightarrow> Inl (External ''yaml: cannot unmarshal into map[string]interface {}''))))"

section \<open>internal/common/api.go: ValuesRegex\<close>

text \<open>
  \<^verbatim>\<open>ValuesRegex = `\{\{\s*\.Values\.([^\s\}]+).*?\}\}`\<close>, and
  \<^verbatim>\<open>ValuesRegexCompiled.FindAllStringSubmatch(expr, -1)\<close>: the leftmost matches, none
  overlapping another. A match at a position is \<^verbatim>\<open>{{\<close>, white space, \<^verbatim>\<open>.Values.\<close>, the
  longest run of characters that are neither white space nor \<^verbatim>\<open>}\<close> (group 1, not empty),
  and then the text up to the first \<^verbatim>\<open>}}\<close> on the same line. \<open>valuesSubmatches\<close> lists
  group 1 of every match, that is \<^verbatim>\<open>matches[i][1]\<close>.
\<close>

definition isSpace :: "char \<Rightarrow> bool" where
  "isSpace c = (c \<in> set [CHR 0x09, CHR 0x0A, CHR 0x0C, CHR 0x0D, CHR '' ''])"

fun stripPrefix :: "string \<Rightarrow> string \<Rightarrow> string option" where
  "stripPrefix [] s = Some s"
| "stripPrefix (p # ps) [] = None"
| "stripPrefix (p # ps) (c # cs) = (if p = c then stripPrefix ps cs else None)"

fun lazyClose :: "string \<Rightarrow> string option" where
  "lazyClose [] = None"
| "lazyClose (c # cs) =
     (case stripPrefix ''}}'' (c # cs) of
        Some rest \<Rightarrow> Some rest
      | None \<Rightarrow> if c = CHR 0x0A then None else lazyClose cs)"

definition matchAt :: "string \<Rightarrow> (string \<times> nat) option" where
  "matchAt s =
     (case stripPrefix ''{{'' s of
        None \<Rightarrow> None
      | Some s1 \<Rightarrow>
          (case stripPrefix ''.Values.'' (dropWhile isSpace s1) of
             None \<Rightarrow> None
           | Some s2 \<Rightarrow>
               (let group1 = takeWhile (\<lambda>c. \<not> isSpace c \<and> c \<noteq> CHR ''}'') s2
                in if group1 = [] then None
                   else (case lazyClose (drop (length group1) s2) of
                           None \<Rightarrow> None
                         | Some rest \<Rightarrow> Some (group1, length s - length rest)))))"

fun findAll :: "nat \<Rightarrow> string \<Rightarrow> string list" where
  "findAll inside [] = []"
| "findAll inside (c # cs) =
     (if inside > 0 then findAll (inside - 1) cs
      else (case matchAt (c # cs) of
              Some (group1, n) \<Rightarrow> group1 # findAll (n - 1) cs
            | None \<Rightarrow> findAll 0 cs))"

definition valuesSubmatches :: "string \<Rightarrow> string list" where
  "valuesSubmatches expr = findAll 0 expr"

section \<open>internal/packager/packager.go: wrapResult\<close>

text \<open>
  \<^verbatim>\<open>
  func (m *modifier) wrapResult(result *list.List, underPath string) (*map[string]any, error) {
      if result.Len() != 1 { return nil, fmt.Errorf("yq result does not contain exactly one element") }
      v, err := m.resultToAny(result)
      if err != nil { ...; return nil, err }
      if v == nil { return new(map[string]any), nil }
      var e any = v
      path := strings.Split(underPath, ".")
      for i := len(path) - 1; i >= 0; i-- { e = map[string]any{path[i]: e} }
      mapVal, ok := e.(map[string]any)
      if !ok { return nil, fmt.Errorf("wrapped value is not a map[string]any") }
      return &mapVal, nil
  }
  \<close>
  \<^verbatim>\<open>new(map[string]any)\<close> points to a nil map, which reads as the empty map.
\<close>

fun wrapUnder :: "string list \<Rightarrow> yval \<Rightarrow> yval" where
  "wrapUnder [] e = e"
| "wrapUnder (seg # path) e = VMap [(seg, wrapUnder path e)]"

definition wrapResult :: "('n, 't) libs \<Rightarrow> 'n list \<Rightarrow> string \<Rightarrow> doc outcome" where
  "wrapResult L result underPath =
     (if length result \<noteq> 1 then Err NotExactlyOneElement
      else (case resultToAny L result of
              Inl e \<Rightarrow> Err e
            | Inr v \<Rightarrow>
                if v = VNull then Ok []
                else (case wrapUnder (splitOn CHR ''.'' underPath) v of
                        VMap mapVal \<Rightarrow> Ok mapVal
                      | _ \<Rightarrow> Err WrappedNotMap)))"

section \<open>internal/packager/packager.go: applyModifications\<close>

text \<open>
  The loop state of \<^verbatim>\<open>applyModifications\<close>: the yq node every expression is evaluated
  on, the manifest to return, and the values extracted so far.
\<close>

record 'n progress =
  candidNode :: 'n
  modifiedManifest :: doc
  extractedValues :: doc

text \<open>
  The two gates at the head of the loop body. Both read the kind of the manifest that was
  passed in, \<^verbatim>\<open>(*manifest)[common.Kind].(string)\<close>.
  \<^verbatim>\<open>
  if mod.Kind != "" {
      rc, err := regexp.Compile(mod.Kind)
      if err != nil { ...; return nil, nil, err }
      kind, ok := (*manifest)[common.Kind].(string)
      if !ok || !rc.MatchString(kind) { continue }
  }
  if mod.Reject != "" {
      kind, ok := (*manifest)[common.Kind].(string)
      rc, err := regexp.Compile(mod.Reject)
      if err != nil { ...; return nil, nil, err }
      if ok && rc.MatchString(kind) { ...; continue }
  }
  \<close>
\<close>

datatype gate = Proceed | Continue | Fail error

definition kindGate :: "('n, 't) libs \<Rightarrow> doc \<Rightarrow> Modification \<Rightarrow> gate" where
  "kindGate L manifest modf =
     (if Kind modf \<noteq> [] then
        (case regexpCompile L (Kind modf) of
           Inl e \<Rightarrow> Fail e
         | Inr rc \<Rightarrow>
             (case kindOf manifest of
                None \<Rightarrow> Continue
              | Some kind \<Rightarrow> if \<not> rc kind then Continue else Proceed))
      else Proceed)"

definition rejectGate :: "('n, 't) libs \<Rightarrow> doc \<Rightarrow> Modification \<Rightarrow> gate" where
  "rejectGate L manifest modf =
     (if Reject modf \<noteq> [] then
        (case regexpCompile L (Reject modf) of
           Inl e \<Rightarrow> Fail e
         | Inr rc \<Rightarrow>
             (case kindOf manifest of
                None \<Rightarrow> Proceed
              | Some kind \<Rightarrow> if rc kind then Continue else Proceed))
      else Proceed)"

text \<open>
  \<^verbatim>\<open>
  matches := common.ValuesRegexCompiled.FindAllStringSubmatch(mod.Expression, -1)
  for i, sel := range mod.ValuesSelector {
      vals, err := m.evaluator.EvaluateNodes(sel, candidNode)
      if err != nil { ...; return nil, nil, err }
      if len(matches) >= 1 {
          valuesMap, err := m.wrapResult(vals, matches[i][1])
          if err != nil { return nil, nil, err }
          extractedValues = *common.DeepMerge(&extractedValues, valuesMap)
      } else {
          err = fmt.Errorf("no value path found in expression '%s'", mod.Expression)
          return nil, nil, err
      }
  }
  \<close>
  \<^verbatim>\<open>matches[i]\<close> with \<open>i\<close> beyond the matches is a run-time panic, raised before
  \<^verbatim>\<open>wrapResult\<close> is entered.
\<close>

fun selectorLoop ::
  "('n, 't) libs \<Rightarrow> string \<Rightarrow> string list \<Rightarrow> nat \<Rightarrow> string list \<Rightarrow> 'n progress
     \<Rightarrow> 'n progress outcome" where
  "selectorLoop L expr matches i [] st = Ok st"
| "selectorLoop L expr matches i (sel # sels) st =
     (case EvaluateNodes L sel (candidNode st) of
        Inl e \<Rightarrow> Err e
      | Inr (vals, node) \<Rightarrow>
          if length matches \<ge> 1 then
            (if i < length matches then
               (case wrapResult L vals (matches ! i) of
                  Err e \<Rightarrow> Err e
                | Panic p \<Rightarrow> Panic p
                | Ok valuesMap \<Rightarrow>
                    selectorLoop L expr matches (i + 1) sels
                      (st\<lparr>candidNode := node,
                          extractedValues := DeepMerge (extractedValues st) valuesMap\<rparr>))
             else Panic IndexOutOfRange)
          else Err (NoValuePathFound expr))"

definition extractValues ::
  "('n, 't) libs \<Rightarrow> Modification \<Rightarrow> 'n progress \<Rightarrow> 'n progress outcome" where
  "extractValues L modf st =
     (case ValuesSelector modf of
        None \<Rightarrow> Ok st
      | Some sels \<Rightarrow> selectorLoop L (Expression modf) (valuesSubmatches (Expression modf)) 0 sels st)"

text \<open>
  The rest of the loop body:
  \<^verbatim>\<open>
  result, err := m.evaluator.EvaluateNodes(mod.Expression, candidNode)
  if err != nil { ...; return nil, nil, err }
  resultManifest, err := m.resultToMap(result)
  if err != nil { return nil, nil, err }
  modifiedManifest = *resultManifest
  \<close>
  Dereferencing a \<^verbatim>\<open>nil\<close> \<^verbatim>\<open>resultManifest\<close> panics.
\<close>

definition mutate :: "('n, 't) libs \<Rightarrow> Modification \<Rightarrow> 'n progress \<Rightarrow> 'n progress outcome" where
  "mutate L modf st =
     (case EvaluateNodes L (Expression modf) (candidNode st) of
        Inl e \<Rightarrow> Err e
      | Inr (result, node) \<Rightarrow>
          (case resultToMap L result of
             Inl e \<Rightarrow> Err e
           | Inr None \<Rightarrow> Panic NilDereference
           | Inr (Some resultManifest) \<Rightarrow>
               Ok (st\<lparr>candidNode := node, modifiedManifest := resultManifest\<rparr>)))"

definition applyMod ::
  "('n, 't) libs \<Rightarrow> doc \<Rightarrow> Modification \<Rightarrow> 'n progress \<Rightarrow> 'n progress outcome" where
  "applyMod L manifest modf st =
     (case kindGate L manifest modf of
        Fail e \<Rightarrow> Err e
      | Continue \<Rightarrow> Ok st
      | Proceed \<Rightarrow>
          (case rejectGate L manifest modf of
             Fail e \<Rightarrow> Err e
           | Continue \<Rightarrow> Ok st
           | Proceed \<Rightarrow>
               (case extractValues L modf st of
                  Err e \<Rightarrow> Err e
                | Panic p \<Rightarrow> Panic p
                | Ok st1 \<Rightarrow> mutate L modf st1)))"

fun modLoop ::
  "('n, 't) libs \<Rightarrow> doc \<Rightarrow> Modification list \<Rightarrow> 'n progress \<Rightarrow> 'n progress outcome" where
  "modLoop L manifest [] st = Ok st"
| "modLoop L manifest (modf # mods) st =
     (case applyMod L manifest modf st of
        Err e \<Rightarrow> Err e
      | Panic p \<Rightarrow> Panic p
      | Ok st1 \<Rightarrow> modLoop L manifest mods st1)"

text \<open>
  \<^verbatim>\<open>
  modifiedManifest := *manifest
  extractedValues := make(map[string]any)
  yamlBytes, err := yaml.Marshal(manifest)
  if err != nil { ...; return nil, nil, err }
  err = m.decoder.Init(bytes.NewReader(yamlBytes))
  if err != nil { ...; return nil, nil, err }
  candidNode, err := m.decoder.Decode()
  if err != nil { ...; return nil, nil, err }
  for _, mod := range *mods { ... }
  return &modifiedManifest, &extractedValues, nil
  \<close>
\<close>

definition applyModifications ::
  "('n, 't) libs \<Rightarrow> doc \<Rightarrow> Modification list \<Rightarrow> (doc \<times> doc) outcome" where
  "applyModifications L manifest mods =
     (case yamlMarshal L manifest of
        Inl e \<Rightarrow> Err e
      | Inr yamlBytes \<Rightarrow>
          (case decoderInit L yamlBytes of
             Some e \<Rightarrow> Err e
           | None \<Rightarrow>
               (case decoderDecode L yamlBytes of
                  Inl e \<Rightarrow> Err e
                | Inr node \<Rightarrow>
                    (case modLoop L manifest mods
                            \<lparr>candidNode = node, modifiedManifest = manifest, extractedValues = []\<rparr> of
                       Err e \<Rightarrow> Err e
                     | Panic p \<Rightarrow> Panic p
                     | Ok st \<Rightarrow> Ok (modifiedManifest st, extractedValues st)))))"

section \<open>internal/packager/packager.go: ParametrizeManifests\<close>

text \<open>
  \<^verbatim>\<open>
  for _, manifest := range manifests.Manifests {
      m, v, err := m.applyModifications(&manifest, mods)
      if err != nil { return nil, err } //not continuing on error
      modifiedManifests = append(modifiedManifests, *m)
      extractedValues = *common.DeepMerge(&extractedValues, v)
  }
  \<close>
  and the same loop over \<^verbatim>\<open>manifests.Crds\<close>, starting from \<^verbatim>\<open>manifests.CrdsValues\<close>.
\<close>

fun parametrizeLoop ::
  "('n, 't) libs \<Rightarrow> Modification list \<Rightarrow> doc list \<Rightarrow> doc list \<Rightarrow> doc
     \<Rightarrow> (doc list \<times> doc) outcome" where
  "parametrizeLoop L mods [] modified extracted = Ok (modified, extracted)"
| "parametrizeLoop L mods (manifest # rest) modified extracted =
     (case applyModifications L manifest mods of
        Err e \<Rightarrow> Err e
      | Panic p \<Rightarrow> Panic p
      | Ok (m, v) \<Rightarrow> parametrizeLoop L mods rest (modified @ [m]) (DeepMerge extracted v))"

definition ParametrizeManifests ::
  "('n, 't) libs \<Rightarrow> Manifests \<Rightarrow> Modification list \<Rightarrow> Manifests outcome" where
  "ParametrizeManifests L manifests mods =
     (case parametrizeLoop L mods (Manifests manifests) [] (Values manifests) of
        Err e \<Rightarrow> Err e
      | Panic p \<Rightarrow> Panic p
      | Ok (modifiedManifests, extractedValues') \<Rightarrow>
          (case parametrizeLoop L mods (Crds manifests) [] (CrdsValues manifests) of
             Err e \<Rightarrow> Err e
           | Panic p \<Rightarrow> Panic p
           | Ok (modifiedCrds, extractedCrdValues) \<Rightarrow>
               Ok \<lparr> Crds = modifiedCrds,
                    Manifests = modifiedManifests,
                    Version = Version manifests,
                    AppVersion = AppVersion manifests,
                    Values = extractedValues',
                    CrdsValues = extractedCrdValues \<rparr>))"

section \<open>internal/packager: createTemplates\<close>

text \<open>
  \<^verbatim>\<open>
  templates := make(map[string]*chart.File, len(*newManifests))
  for i, manifest := range *newManifests {
      manifestYAML, err := yaml.Marshal(manifest)
      if err != nil { ...; return err }
      manifestYAML = re.ReplaceAllFunc(manifestYAML, ...)
      kind, ok := manifest["kind"].(string)
      if !ok { ...; return fmt.Errorf("manifest %d does not have a valid 'kind' field", i) }
      if existingTemplate, exists := templates[kind]; exists {
          newData := append(existingTemplate.Data, []byte("\n---\n")...)
          newData = append(newData, manifestYAML...)
          existingTemplate.Data = newData
      } else {
          templates[kind] = &chart.File{
              Name: fmt.Sprintf("templates/%s.yaml", strings.ToLower(kind)),
              Data: manifestYAML,
          }
      }
  }
  ch.Templates = make([]*chart.File, 0, len(templates))
  for _, tmpl := range templates { ch.Templates = append(ch.Templates, tmpl) }
  return nil
  \<close>
  \<open>marshal\<close> is \<^verbatim>\<open>yaml.Marshal\<close> and \<open>unquote\<close> is \<^verbatim>\<open>re.ReplaceAllFunc\<close> with its callback,
  which strips the quotes around a quoted placeholder; both are parameters.
  The last loop ranges over a Go map. The language leaves the order of that iteration
  unspecified, and the runtime varies it from one loop to the next: \<open>rangeOrder\<close> is the order
  a run happens to take, some rearrangement of the entries.
\<close>

record chart_File =
  Name :: string
  Data :: string

record chart =
  Templates :: "chart_File list"

definition documentSeparator :: string where
  "documentSeparator = [CHR 0x0A] @ ''---'' @ [CHR 0x0A]"

fun templateLoop ::
  "(doc \<Rightarrow> error + string) \<Rightarrow> (string \<Rightarrow> string) \<Rightarrow> nat \<Rightarrow> doc list
     \<Rightarrow> (string \<times> chart_File) list \<Rightarrow> (string \<times> chart_File) list outcome" where
  "templateLoop marshal unquote i [] templates = Ok templates"
| "templateLoop marshal unquote i (manifest # rest) templates =
     (case marshal manifest of
        Inl e \<Rightarrow> Err e
      | Inr marshalled \<Rightarrow>
          (let manifestYAML = unquote marshalled
           in case kindOf manifest of
                None \<Rightarrow> Err (NoValidKind i)
              | Some kind \<Rightarrow>
                  (case map_of templates kind of
                     Some existingTemplate \<Rightarrow>
                       templateLoop marshal unquote (i + 1) rest
                         (AList.update kind
                            (existingTemplate
                               \<lparr>Data := Data existingTemplate @ documentSeparator @ manifestYAML\<rparr>)
                            templates)
                   | None \<Rightarrow>
                       templateLoop marshal unquote (i + 1) rest
                         (AList.update kind
                            \<lparr> Name = ''templates/'' @ ToLower kind @ ''.yaml'',
                              Data = manifestYAML \<rparr>
                            templates))))"

definition createTemplates ::
  "(doc \<Rightarrow> error + string) \<Rightarrow> (string \<Rightarrow> string)
     \<Rightarrow> ((string \<times> chart_File) list \<Rightarrow> (string \<times> chart_File) list)
     \<Rightarrow> chart \<Rightarrow> doc list \<Rightarrow> chart outcome" where
  "createTemplates marshal unquote rangeOrder ch newManifests =
     (case templateLoop marshal unquote 0 newManifests [] of
        Err e \<Rightarrow> Err e
      | Panic p \<Rightarrow> Panic p
      | Ok templates \<Rightarrow> Ok (ch\<lparr>Templates := map snd (rangeOrder templates)\<rparr>))"

section \<open>Stand-ins for the libraries, for evaluation on concrete inputs\<close>

text \<open>
  The theorems below hold for every behaviour of the libraries. To evaluate the rule engine
  on a concrete document, the parameters are instantiated with small stand-ins:
  \<^item> serialized YAML is represented by the stream of documents it holds, so marshalling
    gives a one-document stream and unmarshalling reads the first document (null for an
    empty stream);
  \<^item> \<open>literalCompile\<close> agrees with \<^verbatim>\<open>regexp.Compile\<close> on patterns made of letters, digits
    and \<^verbatim>\<open>-\<close> (the pattern matches where it occurs in the text) and rejects every other
    pattern, as \<^verbatim>\<open>regexp.Compile\<close> rejects \<^verbatim>\<open>(\<close>;
  \<^item> \<open>pathEvaluate\<close> understands three forms of yq expression: a field path
    \<^verbatim>\<open>.a.b\<close> (one match, null when the field is missing), a splat \<^verbatim>\<open>.a.b[]\<close> (one match
    per element) and an update \<^verbatim>\<open>.a.b |= "text"\<close> (one match, the updated document, which
    is also what the candidate node becomes).
\<close>

definition quoted :: "string \<Rightarrow> string" where
  "quoted s = CHR 0x22 # s @ [CHR 0x22]"

fun contains :: "string \<Rightarrow> string \<Rightarrow> bool" where
  "contains sub [] = (sub = [])"
| "contains sub (c # cs) = (stripPrefix sub (c # cs) \<noteq> None \<or> contains sub cs)"

definition literalCompile :: "string \<Rightarrow> error + (string \<Rightarrow> bool)" where
  "literalCompile p =
     (if list_all isIdentChar p then Inr (contains p)
      else Inl (External (''error parsing regexp: '' @ p)))"

fun fieldOf :: "string \<Rightarrow> yval \<Rightarrow> yval" where
  "fieldOf k (VMap m) = (case map_of m k of Some v \<Rightarrow> v | None \<Rightarrow> VNull)"
| "fieldOf k v = VNull"

fun followPath :: "string list \<Rightarrow> yval \<Rightarrow> yval" where
  "followPath [] node = node"
| "followPath (k # ks) node = followPath ks (fieldOf k node)"

fun setPath :: "string list \<Rightarrow> yval \<Rightarrow> yval \<Rightarrow> yval" where
  "setPath [] v node = v"
| "setPath (k # ks) v (VMap m) = VMap (AList.update k (setPath ks v (fieldOf k (VMap m))) m)"
| "setPath (k # ks) v node = VMap [(k, setPath ks v VNull)]"

fun cutAtText :: "string \<Rightarrow> string \<Rightarrow> (string \<times> string) option" where
  "cutAtText sep [] = (if sep = [] then Some ([], []) else None)"
| "cutAtText sep (c # cs) =
     (case stripPrefix sep (c # cs) of
        Some rest \<Rightarrow> Some ([], rest)
      | None \<Rightarrow> (case cutAtText sep cs of Some (a, b) \<Rightarrow> Some (c # a, b) | None \<Rightarrow> None))"

definition segments :: "string \<Rightarrow> string list option" where
  "segments p =
     (case p of
        c # cs \<Rightarrow>
          if c = CHR ''.'' \<and> list_all (\<lambda>seg. seg \<noteq> [] \<and> list_all isIdentChar seg) (splitOn CHR ''.'' cs)
          then Some (splitOn CHR ''.'' cs) else None
      | [] \<Rightarrow> None)"

definition unquoted :: "string \<Rightarrow> string option" where
  "unquoted s =
     (if length s \<ge> 2 \<and> hd s = CHR 0x22 \<and> last s = CHR 0x22 then Some (butlast (tl s)) else None)"

definition unsupported :: "string \<Rightarrow> error" where
  "unsupported expr = External (''unsupported expression: '' @ expr)"

definition pathEvaluate :: "string \<Rightarrow> yval \<Rightarrow> error + (yval list \<times> yval)" where
  "pathEvaluate expr node =
     (case cutAtText '' |= '' expr of
        Some (target, text) \<Rightarrow>
          (case (segments target, unquoted text) of
             (Some path, Some s) \<Rightarrow>
               (let updated = setPath path (VStr s) node in Inr ([updated], updated))
           | _ \<Rightarrow> Inl (unsupported expr))
      | None \<Rightarrow>
          (case cutAtText ''[]'' expr of
             Some (target, rest) \<Rightarrow>
               (case segments target of
                  Some path \<Rightarrow>
                    (if rest \<noteq> [] then Inl (unsupported expr)
                     else (case followPath path node of
                             VSeq xs \<Rightarrow> Inr (xs, node)
                           | VMap m \<Rightarrow> Inr (map snd m, node)
                           | VNull \<Rightarrow> Inr ([], node)
                           | _ \<Rightarrow> Inl (External ''cannot splat a scalar'')))
                | None \<Rightarrow> Inl (unsupported expr))
           | None \<Rightarrow>
               (case segments expr of
                  Some path \<Rightarrow> Inr ([followPath path node], node)
                | None \<Rightarrow> Inl (unsupported expr))))"

definition streamLibs :: "(yval, yval list) libs" where
  "streamLibs =
     \<lparr> yamlMarshal = (\<lambda>d. Inr [VMap d]),
       decoderInit = (\<lambda>t. None),
       decoderDecode = (\<lambda>t. case t of [] \<Rightarrow> Inl (External ''EOF'') | d # ds \<Rightarrow> Inr d),
       EvaluateNodes = pathEvaluate,
       PrintResults = (\<lambda>ns. Inr ns),
       yamlUnmarshal = (\<lambda>t. Inr (case t of [] \<Rightarrow> VNull | d # ds \<Rightarrow> d)),
       regexpCompile = literalCompile \<rparr>"

text \<open>A serializer for flat documents: one \<^verbatim>\<open>key: value\<close> line per field.\<close>

fun showScalar :: "yval \<Rightarrow> string" where
  "showScalar (VStr s) = s"
| "showScalar v = ''~''"

definition showDoc :: "doc \<Rightarrow> error + string" where
  "showDoc d = Inr (concat (map (\<lambda>kv. fst kv @ '': '' @ showScalar (snd kv) @ [CHR 0x0A]) d))"

section \<open>Concrete documents and rules\<close>

text \<open>
  A \<^verbatim>\<open>KubeVirt\<close> document in the shape of the repository's test data, a \<^verbatim>\<open>RoleBinding\<close>,
  and rules over them. \<open>extractConfiguration\<close> is the rule of the repository's test
  \<^verbatim>\<open>simple_values\<close>.
\<close>

definition kubevirt :: doc where
  "kubevirt =
     [(''kind'', VStr ''KubeVirt''),
      (''spec'', VMap [(''configuration'', VMap [(''featureGates'', VSeq [])]),
                      (''workloads'', VSeq [VStr ''a'', VStr ''b''])])]"

definition rolebinding :: doc where
  "rolebinding = [(''kind'', VStr ''RoleBinding''), (''subjects'', VSeq [])]"

definition extractConfiguration :: Modification where
  "extractConfiguration =
     \<lparr> Expression = ''.spec.configuration |= '' @ quoted ''{{ .Values.kubevirt.configuration }}'',
       ValuesSelector = Some [''.spec.configuration''],
       Kind = ''KubeVirt'',
       Reject = [] \<rparr>"

definition roleBindingOnly :: Modification where
  "roleBindingOnly =
     \<lparr> Expression = ''.namespace |= '' @ quoted ''{{ .Release.Namespace }}'',
       ValuesSelector = None,
       Kind = ''RoleBinding'',
       Reject = [] \<rparr>"

definition notForKubeVirt :: Modification where
  "notForKubeVirt =
     \<lparr> Expression = ''.namespace |= '' @ quoted ''{{ .Release.Namespace }}'',
       ValuesSelector = None,
       Kind = [],
       Reject = ''KubeVirt'' \<rparr>"

definition malformedKind :: Modification where
  "malformedKind =
     \<lparr> Expression = ''.namespace |= '' @ quoted ''{{ .Release.Namespace }}'',
       ValuesSelector = None,
       Kind = ''('',
       Reject = [] \<rparr>"

definition setNamespace :: Modification where
  "setNamespace =
     \<lparr> Expression = ''.namespace |= '' @ quoted ''{{ .Release.Namespace }}'',
       ValuesSelector = None,
       Kind = [],
       Reject = [] \<rparr>"

definition noPlaceholder :: Modification where
  "noPlaceholder =
     \<lparr> Expression = ''.spec.configuration |= '' @ quoted ''fixed'',
       ValuesSelector = Some [''.spec.configuration''],
       Kind = [],
       Reject = [] \<rparr>"

definition manyMatches :: Modification where
  "manyMatches =
     \<lparr> Expression = ''.spec.workloads |= '' @ quoted ''{{ .Values.workloads }}'',
       ValuesSelector = Some [''.spec.workloads[]''],
       Kind = [],
       Reject = [] \<rparr>"

definition twoPlaceholders :: Modification where
  "twoPlaceholders =
     \<lparr> Expression = ''.spec.configuration |= '' @ quoted ''{{ .Values.a.b }}{{ .Values.a.c }}'',
       ValuesSelector = Some [''.spec.configuration''],
       Kind = [],
       Reject = [] \<rparr>"

definition twoSelectors :: Modification where
  "twoSelectors =
     \<lparr> Expression = ''.spec.configuration |= '' @ quoted ''{{ .Values.a.b }}'',
       ValuesSelector = Some [''.spec.configuration'', ''.spec.workloads''],
       Kind = [],
       Reject = [] \<rparr>"

definition brokenSelector :: Modification where
  "brokenSelector =
     \<lparr> Expression = ''.spec.configuration |= '' @ quoted ''fixed'',
       ValuesSelector = Some [''.spec[''],
       Kind = [],
       Reject = [] \<rparr>"

definition kubevirtTwoSelectors :: Modification where
  "kubevirtTwoSelectors =
     \<lparr> Expression = ''.spec.configuration |= '' @ quoted ''{{ .Values.a.b }}'',
       ValuesSelector = Some [''.spec.configuration'', ''.spec.workloads''],
       Kind = ''KubeVirt'',
       Reject = [] \<rparr>"

definition release :: Manifests where
  "release =
     \<lparr> Crds = [],
       Manifests = [rolebinding, kubevirt],
       Version = \<lparr>major = 0, minor = 0, patch = 1, pre = [], metadata = [], original = ''0.0.1''\<rparr>,
       AppVersion = ''0.0.1'',
       Values = [],
       CrdsValues = [] \<rparr>"

definition kubevirtFirst :: Manifests where
  "kubevirtFirst =
     \<lparr> Crds = [],
       Manifests = [kubevirt, rolebinding],
       Version = \<lparr>major = 0, minor = 0, patch = 1, pre = [], metadata = [], original = ''0.0.1''\<rparr>,
       AppVersion = ''0.0.1'',
       Values = [],
       CrdsValues = [] \<rparr>"

section \<open>Notions used in the statements\<close>

subsection \<open>DeepMerge\<close>

text \<open>What one round of the second loop stores at the key it visits.\<close>

definition stored :: "yval option \<Rightarrow> yval \<Rightarrow> yval" where
  "stored o1 v2 =
     (case o1 of
        Some (VMap mapV1) \<Rightarrow> (case v2 of VMap mapV2 \<Rightarrow> VMap (DeepMerge mapV1 mapV2) | _ \<Rightarrow> v2)
      | _ \<Rightarrow> v2)"

subsection \<open>FilterManifests\<close>

text \<open>
  A document is excluded when its kind is a string whose lower-case form is the lower-case
  form of an entry of the exclusion list.
\<close>

definition excluded :: "string list \<Rightarrow> doc \<Rightarrow> bool" where
  "excluded denyKindFilter m =
     (case kindOf m of
        Some kind \<Rightarrow> ToLower kind \<in> ToLower ` set denyKindFilter
      | None \<Rightarrow> False)"

subsection \<open>The rule engine\<close>

text \<open>
  The state in which the rule loop is left after a list of rules: the three steps that
  decode the manifest, then the loop. \<open>applyModifications\<close> returns two of its fields.
\<close>

definition runRules ::
  "('n, 't) libs \<Rightarrow> doc \<Rightarrow> Modification list \<Rightarrow> 'n progress outcome" where
  "runRules L manifest mods =
     (case yamlMarshal L manifest of
        Inl e \<Rightarrow> Err e
      | Inr yamlBytes \<Rightarrow>
          (case decoderInit L yamlBytes of
             Some e \<Rightarrow> Err e
           | None \<Rightarrow>
               (case decoderDecode L yamlBytes of
                  Inl e \<Rightarrow> Err e
                | Inr node \<Rightarrow>
                    modLoop L manifest mods
                      \<lparr>candidNode = node, modifiedManifest = manifest, extractedValues = []\<rparr>)))"

text \<open>
  The conditions of the claim, in its words: the kind-match pattern compiles and does not
  match the kind of the document (a document without a string kind is matched by no
  pattern); the kind-reject pattern compiles and matches it; the kind-match pattern does not
  compile.
\<close>

definition kindMismatch :: "('n, 't) libs \<Rightarrow> doc \<Rightarrow> Modification \<Rightarrow> bool" where
  "kindMismatch L manifest modf =
     (Kind modf \<noteq> [] \<and>
      (case regexpCompile L (Kind modf) of
         Inl e \<Rightarrow> False
       | Inr rc \<Rightarrow> (case kindOf manifest of Some kind \<Rightarrow> \<not> rc kind | None \<Rightarrow> True)))"

definition rejectMatch :: "('n, 't) libs \<Rightarrow> doc \<Rightarrow> Modification \<Rightarrow> bool" where
  "rejectMatch L manifest modf =
     (Reject modf \<noteq> [] \<and>
      (case regexpCompile L (Reject modf) of
         Inl e \<Rightarrow> False
       | Inr rc \<Rightarrow> (case kindOf manifest of Some kind \<Rightarrow> rc kind | None \<Rightarrow> False)))"

definition kindMalformed :: "('n, 't) libs \<Rightarrow> Modification \<Rightarrow> bool" where
  "kindMalformed L modf = (Kind modf \<noteq> [] \<and> isl (regexpCompile L (Kind modf)))"


text \<open>
  The first document of a list, in processing order, on which the rule application does
  not succeed, with the way it fails; \<open>None\<close> when it succeeds on all of them.
\<close>

fun firstFailure ::
  "('n, 't) libs \<Rightarrow> Modification list \<Rightarrow> doc list \<Rightarrow> (error + panic) option" where
  "firstFailure L mods [] = None"
| "firstFailure L mods (d # ds) =
     (case applyModifications L d mods of
        Ok r \<Rightarrow> firstFailure L mods ds
      | Err e \<Rightarrow> Some (Inl e)
      | Panic p \<Rightarrow> Some (Inr p))"

subsection \<open>Template units, as the specification describes them\<close>

text \<open>
  The kinds of a document list, in order; the text of a document as it enters a template;
  documents joined by the document separator; and the template unit of a kind: its
  file name comes from the lower-cased kind, its data is the documents of exactly that
  kind, in input order, joined.
\<close>

definition kinds :: "doc list \<Rightarrow> string list" where
  "kinds docs = List.map_filter kindOf docs"

definition rendered :: "(doc \<Rightarrow> error + string) \<Rightarrow> (string \<Rightarrow> string) \<Rightarrow> doc \<Rightarrow> string" where
  "rendered marshal unquote d = (case marshal d of Inr t \<Rightarrow> unquote t | Inl e \<Rightarrow> [])"

fun joinDocs :: "string list \<Rightarrow> string" where
  "joinDocs [] = []"
| "joinDocs [x] = x"
| "joinDocs (x # y # ys) = x @ documentSeparator @ joinDocs (y # ys)"

definition unitFor ::
  "(doc \<Rightarrow> error + string) \<Rightarrow> (string \<Rightarrow> string) \<Rightarrow> doc list \<Rightarrow> string \<Rightarrow> chart_File" where
  "unitFor marshal unquote docs kind =
     \<lparr> Name = ''templates/'' @ ToLower kind @ ''.yaml'',
       Data = joinDocs (map (rendered marshal unquote) (filter (\<lambda>d. kindOf d = Some kind) docs)) \<rparr>"

text \<open>
  The invariant of the first loop: after the documents \<open>seen\<close>, the map holds one entry per
  kind seen, the template unit of that kind over \<open>seen\<close>.
\<close>

definition grouped ::
  "(doc \<Rightarrow> error + string) \<Rightarrow> (string \<Rightarrow> string) \<Rightarrow> doc list \<Rightarrow> (string \<times> chart_File) list \<Rightarrow> bool" where
  "grouped marshal unquote seen templates \<longleftrightarrow>
     distinct (map fst templates) \<and>
     (\<forall>k. map_of templates k =
            (if k \<in> set (kinds seen) then Some (unitFor marshal unquote seen k) else None))"

definition service1 :: doc where
  "service1 = [(''kind'', VStr ''Service''), (''name'', VStr ''api'')]"

definition service2 :: doc where
  "service2 = [(''kind'', VStr ''Service''), (''name'', VStr ''web'')]"

definition deployment :: doc where
  "deployment = [(''kind'', VStr ''Deployment''), (''name'', VStr ''api'')]"

section \<open>Maps as association lists\<close>

lemma wfm_Cons: "wfm ((k, v) # m) \<longleftrightarrow> k \<notin> fst ` set m \<and> wfv v \<and> wfm m"
  by (auto simp: wfm_def)

lemma wfm_distinct: "wfm m \<Longrightarrow> distinct (map fst m)"
  by (simp add: wfm_def)

lemma wfm_lookup: "wfm m \<Longrightarrow> map_of m k = Some v \<Longrightarrow> wfv v"
  by (auto simp: wfm_def dest: map_of_SomeD)

lemma update_entries: "set (AList.update k v m) \<subseteq> insert (k, v) (set m)"
  by (induction m) auto

lemma wfm_update: "wfm m \<Longrightarrow> wfv v \<Longrightarrow> wfm (AList.update k v m)"
  unfolding wfm_def wfv.simps
  using update_entries[of k v m] by (auto simp: distinct_update)

section \<open>DeepMerge\<close>

declare DeepMerge.simps(1) [simp del]

text \<open>The first loop copies a map with distinct keys entry by entry.\<close>

lemma copyInto_append:
  "distinct (map fst (out @ m)) \<Longrightarrow> copyInto out m = out @ m"
proof (induction m arbitrary: out)
  case Nil
  then show ?case by simp
next
  case (Cons kv m)
  obtain k v where kv: "kv = (k, v)" by (cases kv)
  from Cons.prems have fresh: "k \<notin> fst ` set out" by (auto simp: kv)
  have upd: "AList.update k v out = out @ [(k, v)]"
    using fresh by (induction out) auto
  from Cons.prems have "distinct (map fst ((out @ [(k, v)]) @ m))" by (simp add: kv)
  from Cons.IH[OF this] show ?case by (simp add: kv upd)
qed

lemma copyInto_distinct: "distinct (map fst m) \<Longrightarrow> copyInto [] m = m"
  using copyInto_append[of "[]" m] by simp

lemma merge_case_eq:
  "(case map_of out k of
      Some v1 \<Rightarrow>
        (case v1 of
           VMap mapV1 \<Rightarrow>
             (case v2 of
                VMap mapV2 \<Rightarrow> AList.update k (VMap (DeepMerge mapV1 mapV2)) out
              | _ \<Rightarrow> AList.update k v2 out)
         | _ \<Rightarrow> AList.update k v2 out)
    | None \<Rightarrow> AList.update k v2 out)
   = AList.update k (stored (map_of out k) v2) out"
  by (simp add: stored_def split: option.splits yval.splits)

lemma mergeInto_step:
  "mergeInto out ((k, v2) # rest) = mergeInto (AList.update k (stored (map_of out k) v2) out) rest"
  by (simp add: stored_def split: option.splits yval.splits)

lemma stored_both: "stored (Some (VMap m1)) (VMap m2) = VMap (DeepMerge m1 m2)"
  by (simp add: stored_def)

lemma stored_other:
  "\<not> (\<exists>m1 m2. o1 = Some (VMap m1) \<and> v2 = VMap m2) \<Longrightarrow> stored o1 v2 = v2"
  by (auto simp: stored_def split: option.splits yval.splits)

lemma mergeInto_lookup:
  "distinct (map fst b) \<Longrightarrow>
   map_of (mergeInto out b) k =
     (case map_of b k of
        None \<Rightarrow> map_of out k
      | Some v2 \<Rightarrow> Some (stored (map_of out k) v2))"
proof (induction b arbitrary: out)
  case Nil
  then show ?case by simp
next
  case (Cons kv b)
  obtain k' v' where kv: "kv = (k', v')" by (cases kv)
  from Cons.prems have d: "distinct (map fst b)" and nk: "k' \<notin> fst ` set b" by (auto simp: kv)
  have nb: "map_of b k' = None" using nk by (simp add: map_of_eq_None_iff)
  show ?case
    unfolding kv mergeInto_step Cons.IH[OF d]
    using nb by (auto simp: update_conv' split: option.splits)
qed

lemma DeepMerge_lookup:
  assumes "wfm a" and "wfm b"
  shows "map_of (DeepMerge a b) k =
           (case map_of b k of
              None \<Rightarrow> map_of a k
            | Some v2 \<Rightarrow> Some (stored (map_of a k) v2))"
  using mergeInto_lookup[OF wfm_distinct[OF assms(2)], of a k]
  by (simp add: DeepMerge.simps(1) copyInto_distinct[OF wfm_distinct[OF assms(1)]])

lemma wfm_DeepMerge_mergeInto:
  "wfm first \<longrightarrow> wfm second \<longrightarrow> wfm (DeepMerge first second)"
  "wfm out \<longrightarrow> wfm b \<longrightarrow> wfm (mergeInto out b)"
proof (induction first second and out b rule: DeepMerge_mergeInto.induct)
  case (1 first second)
  show ?case
  proof (intro impI)
    assume f: "wfm first" and s: "wfm second"
    have "copyInto [] first = first" by (rule copyInto_distinct[OF wfm_distinct[OF f]])
    with 1 f s show "wfm (DeepMerge first second)" by (simp add: DeepMerge.simps(1))
  qed
next
  case (2 out)
  then show ?case by simp
next
  case (3 out k v2 rest)
  note IH2 = 3(2)[unfolded merge_case_eq]
  show ?case
  proof (intro impI)
    assume o: "wfm out" and b: "wfm ((k, v2) # rest)"
    from b have v2: "wfv v2" and r: "wfm rest" by (simp_all add: wfm_Cons)
    have nv: "wfv (stored (map_of out k) v2)"
    proof (cases "\<exists>m1 m2. map_of out k = Some (VMap m1) \<and> v2 = VMap m2")
      case True
      then obtain m1 m2 where e: "map_of out k = Some (VMap m1)" "v2 = VMap m2" by blast
      have "wfm m1" using wfm_lookup[OF o e(1)] by (simp add: wfm_def)
      moreover have "wfm m2" using v2 e(2) by (simp add: wfm_def)
      ultimately have "wfm (DeepMerge m1 m2)" using 3(1)[OF e(1) refl e(2)] by blast
      then show ?thesis using e by (simp add: stored_def wfm_def)
    next
      case False
      then show ?thesis using v2 by (simp add: stored_other)
    qed
    have "wfm (AList.update k (stored (map_of out k) v2) out)"
      by (rule wfm_update[OF o nv])
    with IH2 r show "wfm (mergeInto out ((k, v2) # rest))"
      unfolding mergeInto_step by blast
  qed
qed

lemma wfm_DeepMerge: "wfm a \<Longrightarrow> wfm b \<Longrightarrow> wfm (DeepMerge a b)"
  using wfm_DeepMerge_mergeInto(1) by blast

lemma DeepMerge_self_value:
  "wfv v \<Longrightarrow> (\<forall>m. v = VMap m \<longrightarrow> DeepMerge m m = m)"
proof (induction v)
  case (VMap m)
  have d: "distinct (map fst m)" using VMap.prems by simp
  have sub: "\<And>out. distinct (map fst b) \<Longrightarrow> set b \<subseteq> set m
      \<Longrightarrow> (\<forall>kv \<in> set b. map_of out (fst kv) = Some (snd kv)) \<Longrightarrow> mergeInto out b = out" for b
  proof (induction b)
    case Nil
    then show ?case by simp
  next
    case (Cons kv b)
    obtain k v where kv: "kv = (k, v)" by (cases kv)
    have inm: "(k, v) \<in> set m" using Cons.prems(2) by (simp add: kv)
    have lk: "map_of out k = Some v" using Cons.prems(3) by (simp add: kv)
    have wv: "wfv v" using VMap.prems inm by auto
    have "\<forall>m'. v = VMap m' \<longrightarrow> DeepMerge m' m' = m'"
      using VMap.IH[of "(k, v)" v] inm wv by simp
    then have mv: "stored (Some v) v = v"
      by (auto simp: stored_def split: yval.splits)
    have step: "AList.update k (stored (map_of out k) v) out = out"
      unfolding lk mv by (rule update_triv[OF lk])
    show ?case unfolding kv mergeInto_step step
      using Cons.IH[of out] Cons.prems by (simp add: kv)
  qed
  have "mergeInto m m = m"
    by (rule sub[OF d subset_refl]) (use d in auto)
  then show ?case by (simp add: DeepMerge.simps(1) copyInto_distinct[OF d])
qed simp_all

lemma DeepMerge_self: "wfm a \<Longrightarrow> DeepMerge a a = a"
  using DeepMerge_self_value[of "VMap a"] by (simp add: wfm_def)

lemma DeepMerge_Nil_right: "wfm a \<Longrightarrow> DeepMerge a [] = a"
  by (simp add: DeepMerge.simps(1) copyInto_distinct wfm_distinct)

text \<open>
  C1. For maps \<open>a\<close> and \<open>b\<close>, \<open>DeepMerge a b\<close> is a map \<open>c\<close> such that: at a key of \<open>b\<close>
  where both \<open>a\<close> and \<open>b\<close> hold maps, \<open>c\<close> holds the merge of the two; at every other key
  of \<open>b\<close>, \<open>c\<close> holds the value of \<open>b\<close>, whatever the two values are; and at a key that
  only \<open>a\<close> has, \<open>c\<close> holds the value of \<open>a\<close>. A key of neither is not a key of \<open>c\<close>.
\<close>

theorem DeepMerge_contract:
  assumes "wfm a" and "wfm b"
  shows "wfm (DeepMerge a b)
    \<and> (\<forall>k m1 m2. map_of a k = Some (VMap m1) \<and> map_of b k = Some (VMap m2)
          \<longrightarrow> map_of (DeepMerge a b) k = Some (VMap (DeepMerge m1 m2)))
    \<and> (\<forall>k v2. map_of b k = Some v2 \<and> \<not> (\<exists>m1 m2. map_of a k = Some (VMap m1) \<and> v2 = VMap m2)
          \<longrightarrow> map_of (DeepMerge a b) k = Some v2)
    \<and> (\<forall>k. map_of b k = None \<longrightarrow> map_of (DeepMerge a b) k = map_of a k)"
proof (intro conjI allI impI)
  show "wfm (DeepMerge a b)" by (rule wfm_DeepMerge[OF assms])
next
  fix k m1 m2
  assume "map_of a k = Some (VMap m1) \<and> map_of b k = Some (VMap m2)"
  then show "map_of (DeepMerge a b) k = Some (VMap (DeepMerge m1 m2))"
    by (simp add: DeepMerge_lookup[OF assms] stored_both)
next
  fix k v2
  assume h: "map_of b k = Some v2 \<and> \<not> (\<exists>m1 m2. map_of a k = Some (VMap m1) \<and> v2 = VMap m2)"
  then have "stored (map_of a k) v2 = v2" by (intro stored_other) blast
  with h show "map_of (DeepMerge a b) k = Some v2"
    by (simp add: DeepMerge_lookup[OF assms])
next
  fix k
  assume "map_of b k = None"
  then show "map_of (DeepMerge a b) k = map_of a k"
    by (simp add: DeepMerge_lookup[OF assms])
qed

theorem DeepMerge_contract_witness:
  "wfm [(''image'', VMap [(''tag'', VStr ''v1'')]), (''replicas'', VInt 1), (''name'', VStr ''app'')]
   \<and> wfm [(''image'', VMap [(''pullPolicy'', VStr ''Always'')]), (''replicas'', VMap [(''min'', VInt 2)])]
   \<and> map_of (DeepMerge
        [(''image'', VMap [(''tag'', VStr ''v1'')]), (''replicas'', VInt 1), (''name'', VStr ''app'')]
        [(''image'', VMap [(''pullPolicy'', VStr ''Always'')]), (''replicas'', VMap [(''min'', VInt 2)])])
       ''image''
     = Some (VMap (DeepMerge [(''tag'', VStr ''v1'')] [(''pullPolicy'', VStr ''Always'')]))
   \<and> map_of (DeepMerge
        [(''image'', VMap [(''tag'', VStr ''v1'')]), (''replicas'', VInt 1), (''name'', VStr ''app'')]
        [(''image'', VMap [(''pullPolicy'', VStr ''Always'')]), (''replicas'', VMap [(''min'', VInt 2)])])
       ''replicas''
     = Some (VMap [(''min'', VInt 2)])
   \<and> map_of (DeepMerge
        [(''image'', VMap [(''tag'', VStr ''v1'')]), (''replicas'', VInt 1), (''name'', VStr ''app'')]
        [(''image'', VMap [(''pullPolicy'', VStr ''Always'')]), (''replicas'', VMap [(''min'', VInt 2)])])
       ''name''
     = Some (VStr ''app'')"
proof -
  let ?a = "[(''image'', VMap [(''tag'', VStr ''v1'')]), (''replicas'', VInt 1), (''name'', VStr ''app'')]"
  let ?b = "[(''image'', VMap [(''pullPolicy'', VStr ''Always'')]), (''replicas'', VMap [(''min'', VInt 2)])]"
  have a: "wfm ?a" by (simp add: wfm_def)
  have b: "wfm ?b" by (simp add: wfm_def)
  note c = DeepMerge_contract[OF a b]
  have 1: "map_of (DeepMerge ?a ?b) ''image''
      = Some (VMap (DeepMerge [(''tag'', VStr ''v1'')] [(''pullPolicy'', VStr ''Always'')]))"
    using c[THEN conjunct2, THEN conjunct1, rule_format,
        of "''image''" "[(''tag'', VStr ''v1'')]" "[(''pullPolicy'', VStr ''Always'')]"]
    by simp
  have 2: "map_of (DeepMerge ?a ?b) ''replicas'' = Some (VMap [(''min'', VInt 2)])"
    using c[THEN conjunct2, THEN conjunct2, THEN conjunct1, rule_format,
        of "''replicas''" "VMap [(''min'', VInt 2)]"]
    by simp
  have 3: "map_of (DeepMerge ?a ?b) ''name'' = Some (VStr ''app'')"
    using c[THEN conjunct2, THEN conjunct2, THEN conjunct2, rule_format, of "''name''"]
    by simp
  from a b 1 2 3 show ?thesis by blast
qed

text \<open>
  C9. \<open>DeepMerge\<close> is idempotent, \<open>DeepMerge a a = a\<close> for every map \<open>a\<close>, and it is
  right-biased: at a key of \<open>b\<close> where the two values are not both maps, the merge holds
  the value of \<open>b\<close>.
\<close>

theorem DeepMerge_idempotent_right_biased:
  assumes "wfm a" and "wfm b"
  shows "DeepMerge a a = a
    \<and> (\<forall>k v2. map_of b k = Some v2 \<and> \<not> (\<exists>m1 m2. map_of a k = Some (VMap m1) \<and> v2 = VMap m2)
          \<longrightarrow> map_of (DeepMerge a b) k = map_of b k)"
proof (intro conjI allI impI)
  show "DeepMerge a a = a" by (rule DeepMerge_self[OF assms(1)])
next
  fix k v2
  assume h: "map_of b k = Some v2 \<and> \<not> (\<exists>m1 m2. map_of a k = Some (VMap m1) \<and> v2 = VMap m2)"
  then have "stored (map_of a k) v2 = v2" by (intro stored_other) blast
  with h show "map_of (DeepMerge a b) k = map_of b k"
    by (simp add: DeepMerge_lookup[OF assms])
qed

theorem DeepMerge_idempotent_right_biased_witness:
  "wfm [(''kubevirt'', VMap [(''configuration'', VMap [(''featureGates'', VSeq [])])]), (''n'', VInt 3)]
   \<and> wfm [(''kubevirt'', VStr ''off''), (''n'', VSeq [VInt 1])]
   \<and> DeepMerge
       [(''kubevirt'', VMap [(''configuration'', VMap [(''featureGates'', VSeq [])])]), (''n'', VInt 3)]
       [(''kubevirt'', VMap [(''configuration'', VMap [(''featureGates'', VSeq [])])]), (''n'', VInt 3)]
     = [(''kubevirt'', VMap [(''configuration'', VMap [(''featureGates'', VSeq [])])]), (''n'', VInt 3)]
   \<and> map_of (DeepMerge
        [(''kubevirt'', VMap [(''configuration'', VMap [(''featureGates'', VSeq [])])]), (''n'', VInt 3)]
        [(''kubevirt'', VStr ''off''), (''n'', VSeq [VInt 1])])
       ''kubevirt''
     = Some (VStr ''off'')"
proof -
  let ?a = "[(''kubevirt'', VMap [(''configuration'', VMap [(''featureGates'', VSeq [])])]), (''n'', VInt 3)]"
  let ?b = "[(''kubevirt'', VStr ''off''), (''n'', VSeq [VInt 1])]"
  have a: "wfm ?a" by (simp add: wfm_def)
  have b: "wfm ?b" by (simp add: wfm_def)
  note c = DeepMerge_idempotent_right_biased[OF a b]
  have 1: "DeepMerge ?a ?a = ?a" using c by blast
  have 2: "map_of (DeepMerge ?a ?b) ''kubevirt'' = Some (VStr ''off'')"
    using c[THEN conjunct2, rule_format, of "''kubevirt''" "VStr ''off''"]
    by simp
  from a b 1 2 show ?thesis by blast
qed

section \<open>FilterManifests\<close>

lemma readBool_update:
  "readBool (AList.update k True d) k' = (k' = k \<or> readBool d k')"
  by (simp add: readBool_def update_conv')

lemma readBool_denyLoop:
  "readBool (denyLoop d fs) k = (readBool d k \<or> k \<in> ToLower ` set fs)"
  by (induction fs arbitrary: d) (auto simp: readBool_update)

lemma readBool_denied: "readBool (denyLoop [] fs) k = (k \<in> ToLower ` set fs)"
  by (simp add: readBool_denyLoop) (simp add: readBool_def)

lemma filterLoop_filter:
  "filterLoop d acc ms =
     acc @ filter (\<lambda>m. \<not> (case kindOf m of Some kind \<Rightarrow> readBool d (ToLower kind) | None \<Rightarrow> False)) ms"
  by (induction ms arbitrary: acc) (auto split: option.splits)

lemma Manifests_FilterManifests:
  "Manifests (FilterManifests ms deny) = filter (\<lambda>m. \<not> excluded deny m) (Manifests ms)"
proof -
  have "(\<lambda>m. \<not> (case kindOf m of Some kind \<Rightarrow> readBool (denyLoop [] deny) (ToLower kind) | None \<Rightarrow> False))
      = (\<lambda>m. \<not> excluded deny m)"
    by (auto simp: excluded_def readBool_denied fun_eq_iff split: option.splits)
  then show ?thesis
    by (simp add: FilterManifests_def Let_def filterLoop_filter)
qed

text \<open>
  C4. \<open>FilterManifests\<close> removes the excluded documents and no others: what remains is the
  input with the excluded documents taken out, in the order of the input, and their
  number is the number of input documents less the number of excluded ones.
\<close>

theorem FilterManifests_removes_exactly:
  "Manifests (FilterManifests ms deny) = filter (\<lambda>m. \<not> excluded deny m) (Manifests ms)
   \<and> subseq (Manifests (FilterManifests ms deny)) (Manifests ms)
   \<and> length (Manifests (FilterManifests ms deny))
       = length (Manifests ms) - length (filter (excluded deny) (Manifests ms))"
proof -
  have "length (filter (\<lambda>m. \<not> excluded deny m) xs) = length xs - length (filter (excluded deny) xs)"
    for xs :: "doc list"
    using sum_length_filter_compl[of "excluded deny" xs] by simp
  then show ?thesis
    by (simp add: Manifests_FilterManifests)
qed

text \<open>
  C10. \<open>FilterManifests\<close> changes the list of ordinary manifests only: the schema-definition
  documents, both versions and both value overlays of the result are those of the input.
  A document whose kind is missing or is not a string is kept, whatever the exclusion list.
\<close>

theorem FilterManifests_frame:
  "Crds (FilterManifests ms deny) = Crds ms
   \<and> Version (FilterManifests ms deny) = Version ms
   \<and> AppVersion (FilterManifests ms deny) = AppVersion ms
   \<and> Values (FilterManifests ms deny) = Values ms
   \<and> CrdsValues (FilterManifests ms deny) = CrdsValues ms
   \<and> filter (\<lambda>m. kindOf m = None) (Manifests (FilterManifests ms deny))
       = filter (\<lambda>m. kindOf m = None) (Manifests ms)
   \<and> (\<forall>m \<in> set (Manifests ms). kindOf m = None \<longrightarrow> m \<in> set (Manifests (FilterManifests ms deny)))"
proof -
  have keep: "kindOf m = None \<Longrightarrow> \<not> excluded deny m" for m
    by (simp add: excluded_def)
  have "filter (\<lambda>m. kindOf m = None) (filter (\<lambda>m. \<not> excluded deny m) xs)
      = filter (\<lambda>m. kindOf m = None) xs" for xs
    by (induction xs) (auto simp: keep)
  moreover have "\<forall>m \<in> set (Manifests ms). kindOf m = None
      \<longrightarrow> m \<in> set (filter (\<lambda>m. \<not> excluded deny m) (Manifests ms))"
    by (auto simp: keep)
  ultimately show ?thesis
    unfolding Manifests_FilterManifests
    by (simp add: FilterManifests_def Let_def)
qed

theorem FilterManifests_frame_witness:
  "[(''kind'', VInt 7)] \<in> set [[(''kind'', VStr ''Service'')], [(''kind'', VInt 7)], [(''name'', VStr ''x'')]]
   \<and> kindOf [(''kind'', VInt 7)] = None
   \<and> [(''kind'', VInt 7)] \<in> set (Manifests (FilterManifests
        \<lparr> Crds = [[(''kind'', VStr ''CustomResourceDefinition'')]],
          Manifests = [[(''kind'', VStr ''Service'')], [(''kind'', VInt 7)], [(''name'', VStr ''x'')]],
          Version = \<lparr>major = 0, minor = 0, patch = 1, pre = [], metadata = [], original = ''0.0.1''\<rparr>,
          AppVersion = ''0.0.1'', Values = [], CrdsValues = [] \<rparr>
        [''service'', ''customresourcedefinition'']))"
proof -
  let ?ms = "\<lparr> Crds = [[(''kind'', VStr ''CustomResourceDefinition'')]],
          Manifests = [[(''kind'', VStr ''Service'')], [(''kind'', VInt 7)], [(''name'', VStr ''x'')]],
          Version = \<lparr>major = 0, minor = 0, patch = 1, pre = [], metadata = [], original = ''0.0.1''\<rparr>,
          AppVersion = ''0.0.1'', Values = [], CrdsValues = [] \<rparr>"
  have 1: "[(''kind'', VInt 7)] \<in> set (Manifests ?ms)" by simp
  have 2: "kindOf [(''kind'', VInt 7)] = None" by (simp add: kindOf_def common_Kind_def)
  from FilterManifests_frame[of ?ms "[''service'', ''customresourcedefinition'']"] 1 2
  have "[(''kind'', VInt 7)] \<in> set (Manifests (FilterManifests ?ms [''service'', ''customresourcedefinition'']))"
    by blast
  with 1 2 show ?thesis by simp
qed

section \<open>takeNewerVersion\<close>

lemmas semver_defs =
  NewVersion_def ParseUint_def isDigit_def digitVal_def validIdents_def isIdentChar_def
  Compare_def compareSegment_def

text \<open>
  C2, as the claim states it, fails where the two versions compare equal and differ: build
  metadata takes no part in the comparison, and on a tie the resolver returns the remote
  version, not the recorded one.
\<close>

theorem takeNewerVersion_tie_counterexample:
  "NewVersion ''1.2.0+local''
     = Some \<lparr>major = 1, minor = 2, patch = 0, pre = [], metadata = ''local'', original = ''1.2.0+local''\<rparr>
   \<and> NewVersion ''1.2.0+upstream''
     = Some \<lparr>major = 1, minor = 2, patch = 0, pre = [], metadata = ''upstream'',
             original = ''1.2.0+upstream''\<rparr>
   \<and> Compare
       \<lparr>major = 1, minor = 2, patch = 0, pre = [], metadata = ''upstream'', original = ''1.2.0+upstream''\<rparr>
       \<lparr>major = 1, minor = 2, patch = 0, pre = [], metadata = ''local'', original = ''1.2.0+local''\<rparr>
     = 0
   \<and> takeNewerVersion NewVersion Compare ''1.2.0+local'' ''1.2.0+upstream''
     = Returned (Some \<lparr>major = 1, minor = 2, patch = 0, pre = [], metadata = ''upstream'',
                       original = ''1.2.0+upstream''\<rparr>)
   \<and> takeNewerVersion NewVersion Compare ''1.2.0+local'' ''1.2.0+upstream''
     \<noteq> Returned (NewVersion ''1.2.0+local'')"
proof -
  have e: "NewVersion ''1.2.0+local''
     = Some \<lparr>major = 1, minor = 2, patch = 0, pre = [], metadata = ''local'', original = ''1.2.0+local''\<rparr>"
    by (simp add: semver_defs)
  have r: "NewVersion ''1.2.0+upstream''
     = Some \<lparr>major = 1, minor = 2, patch = 0, pre = [], metadata = ''upstream'',
             original = ''1.2.0+upstream''\<rparr>"
    by (simp add: semver_defs)
  have c: "Compare
       \<lparr>major = 1, minor = 2, patch = 0, pre = [], metadata = ''upstream'', original = ''1.2.0+upstream''\<rparr>
       \<lparr>major = 1, minor = 2, patch = 0, pre = [], metadata = ''local'', original = ''1.2.0+local''\<rparr>
     = 0"
    by (simp add: semver_defs)
  show ?thesis
    unfolding takeNewerVersion_def e r by (simp add: c)
qed

text \<open>
  C2, amended. With an existing version that parses: when the remote tag does not parse,
  the resolver returns the existing version and no error; when it parses, the resolver
  returns the existing version if the remote one is strictly lower, and the remote version
  otherwise, so that a tie goes to the remote version. The three examples of the
  specification hold.
\<close>

theorem takeNewerVersion_resolves:
  assumes "newVersion existing = Some e"
  shows "(newVersion remote = None
            \<longrightarrow> takeNewerVersion newVersion compare existing remote = Returned (Some e))
    \<and> (\<forall>r. newVersion remote = Some r
            \<longrightarrow> takeNewerVersion newVersion compare existing remote
                  = Returned (Some (if compare r e < 0 then e else r)))
    \<and> takeNewerVersion NewVersion Compare ''1.2.0'' ''1.3.0'' = Returned (NewVersion ''1.3.0'')
    \<and> takeNewerVersion NewVersion Compare ''1.2.0'' ''not-semver'' = Returned (NewVersion ''1.2.0'')
    \<and> takeNewerVersion NewVersion Compare ''2.0.0'' ''1.9.0'' = Returned (NewVersion ''2.0.0'')"
proof -
  have v120: "NewVersion ''1.2.0''
      = Some \<lparr>major = 1, minor = 2, patch = 0, pre = [], metadata = [], original = ''1.2.0''\<rparr>"
    by (simp add: semver_defs)
  have v130: "NewVersion ''1.3.0''
      = Some \<lparr>major = 1, minor = 3, patch = 0, pre = [], metadata = [], original = ''1.3.0''\<rparr>"
    by (simp add: semver_defs)
  have v200: "NewVersion ''2.0.0''
      = Some \<lparr>major = 2, minor = 0, patch = 0, pre = [], metadata = [], original = ''2.0.0''\<rparr>"
    by (simp add: semver_defs)
  have v190: "NewVersion ''1.9.0''
      = Some \<lparr>major = 1, minor = 9, patch = 0, pre = [], metadata = [], original = ''1.9.0''\<rparr>"
    by (simp add: semver_defs)
  have bad: "NewVersion ''not-semver'' = None"
    by (simp add: semver_defs)
  have 1: "takeNewerVersion NewVersion Compare ''1.2.0'' ''1.3.0'' = Returned (NewVersion ''1.3.0'')"
    unfolding takeNewerVersion_def v120 v130 by (simp add: Compare_def compareSegment_def)
  have 2: "takeNewerVersion NewVersion Compare ''1.2.0'' ''not-semver'' = Returned (NewVersion ''1.2.0'')"
    unfolding takeNewerVersion_def v120 bad by simp
  have 3: "takeNewerVersion NewVersion Compare ''2.0.0'' ''1.9.0'' = Returned (NewVersion ''2.0.0'')"
    unfolding takeNewerVersion_def v200 v190 by (simp add: Compare_def compareSegment_def)
  show ?thesis
    using assms 1 2 3 by (simp add: takeNewerVersion_def)
qed

theorem takeNewerVersion_resolves_witness:
  "NewVersion ''0.4.1''
     = Some \<lparr>major = 0, minor = 4, patch = 1, pre = [], metadata = [], original = ''0.4.1''\<rparr>
   \<and> NewVersion ''latest'' = None
   \<and> takeNewerVersion NewVersion Compare ''0.4.1'' ''latest''
     = Returned (Some \<lparr>major = 0, minor = 4, patch = 1, pre = [], metadata = [], original = ''0.4.1''\<rparr>)
   \<and> NewVersion ''v0.5.0''
     = Some \<lparr>major = 0, minor = 5, patch = 0, pre = [], metadata = [], original = ''v0.5.0''\<rparr>
   \<and> takeNewerVersion NewVersion Compare ''0.4.1'' ''v0.5.0''
     = Returned (Some \<lparr>major = 0, minor = 5, patch = 0, pre = [], metadata = [], original = ''v0.5.0''\<rparr>)"
proof -
  have e: "NewVersion ''0.4.1''
     = Some \<lparr>major = 0, minor = 4, patch = 1, pre = [], metadata = [], original = ''0.4.1''\<rparr>"
    by (simp add: semver_defs)
  have bad: "NewVersion ''latest'' = None"
    by (simp add: semver_defs)
  have r: "NewVersion ''v0.5.0''
     = Some \<lparr>major = 0, minor = 5, patch = 0, pre = [], metadata = [], original = ''v0.5.0''\<rparr>"
    by (simp add: semver_defs)
  note t1 = takeNewerVersion_resolves[where newVersion = NewVersion and existing = "''0.4.1''"
      and remote = "''latest''" and compare = Compare, OF e, THEN conjunct1, rule_format, OF bad]
  note t2 = takeNewerVersion_resolves[where newVersion = NewVersion and existing = "''0.4.1''"
      and remote = "''v0.5.0''" and compare = Compare, OF e, THEN conjunct2, THEN conjunct1,
      rule_format, OF r]
  have c: "Compare \<lparr>major = 0, minor = 5, patch = 0, pre = [], metadata = [], original = ''v0.5.0''\<rparr>
      \<lparr>major = 0, minor = 4, patch = 1, pre = [], metadata = [], original = ''0.4.1''\<rparr> = 1"
    by (simp add: Compare_def compareSegment_def)
  from e bad r t1 t2 c show ?thesis by simp
qed

section \<open>The rule engine: loops and error propagation\<close>

lemma applyModifications_runRules:
  "applyModifications L manifest mods =
     (case runRules L manifest mods of
        Err e \<Rightarrow> Err e
      | Panic p \<Rightarrow> Panic p
      | Ok st \<Rightarrow> Ok (modifiedManifest st, extractedValues st))"
  by (simp add: applyModifications_def runRules_def split: sum.splits option.splits)

lemma modLoop_append:
  "modLoop L manifest (before @ rest) st =
     (case modLoop L manifest before st of
        Err e \<Rightarrow> Err e
      | Panic p \<Rightarrow> Panic p
      | Ok st1 \<Rightarrow> modLoop L manifest rest st1)"
  by (induction before arbitrary: st) (auto split: outcome.splits)

lemma runRules_append:
  "runRules L manifest (before @ rest) =
     (case runRules L manifest before of
        Err e \<Rightarrow> Err e
      | Panic p \<Rightarrow> Panic p
      | Ok st1 \<Rightarrow> modLoop L manifest rest st1)"
  by (simp add: runRules_def modLoop_append split: sum.splits option.splits)

lemma runRules_reached:
  "runRules L manifest before = Ok st \<Longrightarrow>
   runRules L manifest (before @ modf # rest) =
     (case applyMod L manifest modf st of
        Err e \<Rightarrow> Err e
      | Panic p \<Rightarrow> Panic p
      | Ok st1 \<Rightarrow> modLoop L manifest rest st1)"
  by (simp add: runRules_append)

lemma applyModifications_Ok_runRules:
  "applyModifications L manifest mods = Ok r \<Longrightarrow> \<exists>st. runRules L manifest mods = Ok st"
  by (auto simp: applyModifications_runRules split: outcome.splits)

lemma selectorLoop_append:
  "selectorLoop L expr ms i (xs @ ys) st =
     (case selectorLoop L expr ms i xs st of
        Err e \<Rightarrow> Err e
      | Panic p \<Rightarrow> Panic p
      | Ok st1 \<Rightarrow> selectorLoop L expr ms (i + length xs) ys st1)"
proof (induction xs arbitrary: i st)
  case Nil
  then show ?case by simp
next
  case (Cons x xs)
  show ?case
    by (simp add: Cons.IH split: sum.splits prod.splits outcome.splits)
qed

section \<open>Kind gates\<close>

lemma applyMod_kindMismatch: "kindMismatch L manifest modf \<Longrightarrow> applyMod L manifest modf st = Ok st"
  by (auto simp: kindMismatch_def applyMod_def kindGate_def split: sum.splits option.splits)

lemma applyMod_rejectMatch:
  "rejectMatch L manifest modf \<Longrightarrow> \<not> kindMalformed L modf \<Longrightarrow> applyMod L manifest modf st = Ok st"
  by (auto simp: rejectMatch_def kindMalformed_def applyMod_def kindGate_def rejectGate_def
      split: sum.splits option.splits)

lemma applyMod_kindMalformed:
  "Kind modf \<noteq> [] \<Longrightarrow> regexpCompile L (Kind modf) = Inl e \<Longrightarrow> applyMod L manifest modf st = Err e"
  by (simp add: applyMod_def kindGate_def)

lemma modLoop_skip:
  assumes "\<And>st. applyMod L manifest modf st = Ok st"
  shows "modLoop L manifest (before @ modf # rest) st = modLoop L manifest (before @ rest) st"
  by (simp add: modLoop_append assms split: outcome.splits)

lemma applyModifications_skip:
  assumes "\<And>st. applyMod L manifest modf st = Ok st"
  shows "applyModifications L manifest (before @ modf # rest) = applyModifications L manifest (before @ rest)"
  using modLoop_skip[OF assms]
  by (simp add: applyModifications_def split: sum.splits option.splits)

text \<open>
  C5. A rule whose kind-match pattern does not match the kind of the document, or whose
  kind-reject pattern matches it, is skipped: the rule list with the rule gives what the
  rule list without it gives, so the rule changes neither the document nor the overlay and
  the rules after it are applied. A rule that is reached and whose kind-match pattern does
  not compile makes the whole application fail at once with the error of the compilation.
\<close>

theorem applyModifications_kind_gates:
  "((kindMismatch L manifest modf \<or> (rejectMatch L manifest modf \<and> \<not> kindMalformed L modf))
      \<longrightarrow> applyModifications L manifest (before @ modf # rest) = applyModifications L manifest (before @ rest))
   \<and> ((\<exists>r. applyModifications L manifest before = Ok r) \<and> Kind modf \<noteq> []
         \<and> regexpCompile L (Kind modf) = Inl e
      \<longrightarrow> applyModifications L manifest (before @ modf # rest) = Err e)"
proof (intro conjI impI)
  assume "kindMismatch L manifest modf \<or> (rejectMatch L manifest modf \<and> \<not> kindMalformed L modf)"
  then have "applyMod L manifest modf st = Ok st" for st
    using applyMod_kindMismatch applyMod_rejectMatch by blast
  then show "applyModifications L manifest (before @ modf # rest) = applyModifications L manifest (before @ rest)"
    by (rule applyModifications_skip)
next
  assume h: "(\<exists>r. applyModifications L manifest before = Ok r) \<and> Kind modf \<noteq> []
      \<and> regexpCompile L (Kind modf) = Inl e"
  then obtain st where st: "runRules L manifest before = Ok st"
    using applyModifications_Ok_runRules by blast
  have "applyMod L manifest modf st = Err e"
    using h by (simp add: applyMod_kindMalformed)
  then show "applyModifications L manifest (before @ modf # rest) = Err e"
    by (simp add: applyModifications_runRules runRules_reached[OF st])
qed

lemmas stand_in_defs =
  streamLibs_def pathEvaluate_def segments_def unquoted_def unsupported_def literalCompile_def
  isIdentChar_def isDigit_def quoted_def

lemmas engine_defs =
  applyModifications_def applyMod_def kindGate_def rejectGate_def extractValues_def mutate_def
  wrapResult_def resultToAny_def resultToMap_def valuesSubmatches_def matchAt_def isSpace_def
  kindOf_def common_Kind_def DeepMerge.simps(1) Let_def

lemmas sample_defs =
  kubevirt_def rolebinding_def extractConfiguration_def roleBindingOnly_def notForKubeVirt_def
  malformedKind_def setNamespace_def noPlaceholder_def manyMatches_def twoPlaceholders_def
  twoSelectors_def brokenSelector_def kubevirtTwoSelectors_def

lemma kubevirt_setNamespace:
  "applyModifications streamLibs kubevirt [setNamespace]
     = Ok ([(''kind'', VStr ''KubeVirt''),
            (''spec'', VMap [(''configuration'', VMap [(''featureGates'', VSeq [])]),
                            (''workloads'', VSeq [VStr ''a'', VStr ''b''])]),
            (''namespace'', VStr ''{{ .Release.Namespace }}'')],
           [])"
  by (simp add: sample_defs stand_in_defs engine_defs)

theorem applyModifications_kind_gates_witness:
  "kindMismatch streamLibs kubevirt roleBindingOnly
   \<and> applyModifications streamLibs kubevirt ([] @ roleBindingOnly # [setNamespace])
       = applyModifications streamLibs kubevirt ([] @ [setNamespace])
   \<and> rejectMatch streamLibs kubevirt notForKubeVirt \<and> \<not> kindMalformed streamLibs notForKubeVirt
   \<and> applyModifications streamLibs kubevirt ([] @ notForKubeVirt # [setNamespace])
       = applyModifications streamLibs kubevirt ([] @ [setNamespace])
   \<and> applyModifications streamLibs kubevirt [] = Ok (kubevirt, [])
   \<and> Kind malformedKind \<noteq> []
   \<and> regexpCompile streamLibs (Kind malformedKind) = Inl (External ''error parsing regexp: ('')
   \<and> applyModifications streamLibs kubevirt ([] @ malformedKind # [setNamespace])
       = Err (External ''error parsing regexp: ('')"
proof -
  have 1: "kindMismatch streamLibs kubevirt roleBindingOnly"
    by (simp add: kindMismatch_def sample_defs stand_in_defs kindOf_def common_Kind_def)
  have 2: "rejectMatch streamLibs kubevirt notForKubeVirt"
    by (simp add: rejectMatch_def sample_defs stand_in_defs kindOf_def common_Kind_def)
  have 3: "\<not> kindMalformed streamLibs notForKubeVirt"
    by (simp add: kindMalformed_def sample_defs)
  have 4: "applyModifications streamLibs kubevirt [] = Ok (kubevirt, [])"
    by (simp add: applyModifications_def streamLibs_def)
  have 5: "Kind malformedKind \<noteq> []"
    by (simp add: sample_defs)
  have 6: "regexpCompile streamLibs (Kind malformedKind) = Inl (External ''error parsing regexp: ('')"
    by (simp add: sample_defs stand_in_defs)
  note skip1 = applyModifications_kind_gates[where L = streamLibs and manifest = kubevirt
      and modf = roleBindingOnly and before = "[]" and rest = "[setNamespace]", THEN conjunct1, rule_format]
  note skip2 = applyModifications_kind_gates[where L = streamLibs and manifest = kubevirt
      and modf = notForKubeVirt and before = "[]" and rest = "[setNamespace]", THEN conjunct1, rule_format]
  note fail = applyModifications_kind_gates[where L = streamLibs and manifest = kubevirt
      and modf = malformedKind and before = "[]" and rest = "[setNamespace]"
      and e = "External ''error parsing regexp: (''", THEN conjunct2, rule_format]
  have a: "applyModifications streamLibs kubevirt ([] @ roleBindingOnly # [setNamespace])
       = applyModifications streamLibs kubevirt ([] @ [setNamespace])"
    using skip1 1 by blast
  have b: "applyModifications streamLibs kubevirt ([] @ notForKubeVirt # [setNamespace])
       = applyModifications streamLibs kubevirt ([] @ [setNamespace])"
    using skip2 2 3 by blast
  have c: "applyModifications streamLibs kubevirt ([] @ malformedKind # [setNamespace])
       = Err (External ''error parsing regexp: ('')"
    using fail 4 5 6 by blast
  from 1 2 3 4 5 6 a b c show ?thesis by blast
qed

section \<open>Value selectors\<close>

lemma selectorLoop_reached:
  assumes "selectorLoop L expr ms 0 earlier st = Ok st1"
  shows "selectorLoop L expr ms 0 (earlier @ sel # sels) st
           = selectorLoop L expr ms (length earlier) (sel # sels) st1"
  by (simp add: selectorLoop_append assms)

lemma applyModifications_reached_selector:
  assumes "runRules L manifest before = Ok st"
    and "kindGate L manifest modf = Proceed" and "rejectGate L manifest modf = Proceed"
    and "ValuesSelector modf = Some (earlier @ sel # sels)"
    and "selectorLoop L (Expression modf) (valuesSubmatches (Expression modf)) 0 earlier st = Ok st1"
    and "selectorLoop L (Expression modf) (valuesSubmatches (Expression modf)) (length earlier)
           (sel # sels) st1 = Err e"
  shows "applyModifications L manifest (before @ modf # rest) = Err e"
proof -
  have "extractValues L modf st = Err e"
    using assms(4,6) selectorLoop_reached[OF assms(5)] by (simp add: extractValues_def)
  then have "applyMod L manifest modf st = Err e"
    using assms(2,3) by (simp add: applyMod_def)
  then show ?thesis
    by (simp add: applyModifications_runRules runRules_reached[OF assms(1)])
qed

text \<open>
  C3, as the claim states it, fails where the expression holds more placeholder references
  than the rule has selector paths: the count is not compared, the surplus reference is
  ignored, and the rule is applied. Here the expression holds two references and the rule
  one selector path.
\<close>

theorem applyModifications_surplus_placeholder_counterexample:
  "valuesSubmatches (Expression twoPlaceholders) = [''a.b'', ''a.c'']
   \<and> ValuesSelector twoPlaceholders = Some [''.spec.configuration'']
   \<and> applyModifications streamLibs kubevirt [twoPlaceholders]
     = Ok ([(''kind'', VStr ''KubeVirt''),
            (''spec'', VMap [(''configuration'', VStr ''{{ .Values.a.b }}{{ .Values.a.c }}''),
                            (''workloads'', VSeq [VStr ''a'', VStr ''b''])])],
           [(''a'', VMap [(''b'', VMap [(''featureGates'', VSeq [])])])])"
  by (simp add: sample_defs stand_in_defs engine_defs)

text \<open>
  With fewer references than selector paths, and at least one, the run ends in a panic
  at \<^verbatim>\<open>matches[i]\<close>.
\<close>

lemma applyModifications_fewer_placeholders_panics:
  "valuesSubmatches (Expression twoSelectors) = [''a.b'']
   \<and> ValuesSelector twoSelectors = Some [''.spec.configuration'', ''.spec.workloads'']
   \<and> applyModifications streamLibs kubevirt [twoSelectors] = Panic IndexOutOfRange"
  by (simp add: sample_defs stand_in_defs engine_defs)

text \<open>
  C3, amended. Take a rule that is reached and passes both gates, and one of its selector
  paths that is reached. If evaluating the path fails, \<open>applyModifications\<close> returns the
  error of the evaluation. If it gives the matches \<open>vals\<close>: when the expression holds no
  placeholder reference, \<open>applyModifications\<close> returns the error "no value path found";
  when the expression holds a reference for this selector path and \<open>vals\<close> is not exactly
  one match, \<open>applyModifications\<close> returns the error "not exactly one element". So a rule
  with a selector path and no placeholder reference always makes \<open>applyModifications\<close>
  return an error.
\<close>

theorem applyModifications_selector_errors:
  assumes "runRules L manifest before = Ok st"
    and "kindGate L manifest modf = Proceed" and "rejectGate L manifest modf = Proceed"
    and "ValuesSelector modf = Some (earlier @ sel # sels)"
    and "selectorLoop L (Expression modf) (valuesSubmatches (Expression modf)) 0 earlier st = Ok st1"
  shows "(\<forall>e. EvaluateNodes L sel (candidNode st1) = Inl e
            \<longrightarrow> applyModifications L manifest (before @ modf # rest) = Err e)
    \<and> (\<forall>vals node. EvaluateNodes L sel (candidNode st1) = Inr (vals, node)
            \<longrightarrow> (valuesSubmatches (Expression modf) = []
                    \<longrightarrow> applyModifications L manifest (before @ modf # rest)
                          = Err (NoValuePathFound (Expression modf)))
                \<and> (length earlier < length (valuesSubmatches (Expression modf)) \<and> length vals \<noteq> 1
                    \<longrightarrow> applyModifications L manifest (before @ modf # rest)
                          = Err NotExactlyOneElement))
    \<and> (valuesSubmatches (Expression modf) = []
            \<longrightarrow> (\<exists>e. applyModifications L manifest (before @ modf # rest) = Err e))"
proof -
  let ?loop = "selectorLoop L (Expression modf) (valuesSubmatches (Expression modf)) (length earlier)
      (sel # sels) st1"
  have lift: "applyModifications L manifest (before @ modf # rest) = Err e" if "?loop = Err e" for e
    by (rule applyModifications_reached_selector[OF assms(1-5) that])
  have failing: "applyModifications L manifest (before @ modf # rest) = Err e"
    if "EvaluateNodes L sel (candidNode st1) = Inl e" for e
    by (rule lift) (simp add: that)
  have none: "applyModifications L manifest (before @ modf # rest)
      = Err (NoValuePathFound (Expression modf))"
    if "EvaluateNodes L sel (candidNode st1) = Inr (vals, node)"
      and "valuesSubmatches (Expression modf) = []" for vals node
    by (rule lift) (simp add: that)
  have card: "applyModifications L manifest (before @ modf # rest) = Err NotExactlyOneElement"
    if "EvaluateNodes L sel (candidNode st1) = Inr (vals, node)"
      and "length earlier < length (valuesSubmatches (Expression modf)) \<and> length vals \<noteq> 1"
    for vals node
    by (rule lift) (use that in \<open>simp add: wrapResult_def\<close>)
  have always: "\<exists>e. applyModifications L manifest (before @ modf # rest) = Err e"
    if "valuesSubmatches (Expression modf) = []"
  proof (cases "EvaluateNodes L sel (candidNode st1)")
    case (Inl e)
    then show ?thesis using failing by blast
  next
    case (Inr r)
    then obtain vals node where "EvaluateNodes L sel (candidNode st1) = Inr (vals, node)"
      by (cases r) simp
    from none[OF this that] show ?thesis by blast
  qed
  from failing none card always show ?thesis by blast
qed

theorem applyModifications_selector_errors_witness:
  "runRules streamLibs kubevirt []
     = Ok \<lparr>candidNode = VMap kubevirt, modifiedManifest = kubevirt, extractedValues = []\<rparr>
   \<and> kindGate streamLibs kubevirt noPlaceholder = Proceed
   \<and> rejectGate streamLibs kubevirt noPlaceholder = Proceed
   \<and> ValuesSelector noPlaceholder = Some ([] @ ''.spec.configuration'' # [])
   \<and> EvaluateNodes streamLibs ''.spec.configuration'' (VMap kubevirt)
       = Inr ([VMap [(''featureGates'', VSeq [])]], VMap kubevirt)
   \<and> valuesSubmatches (Expression noPlaceholder) = []
   \<and> applyModifications streamLibs kubevirt ([] @ noPlaceholder # [])
       = Err (NoValuePathFound (Expression noPlaceholder))
   \<and> kindGate streamLibs kubevirt manyMatches = Proceed
   \<and> rejectGate streamLibs kubevirt manyMatches = Proceed
   \<and> ValuesSelector manyMatches = Some ([] @ ''.spec.workloads[]'' # [])
   \<and> EvaluateNodes streamLibs ''.spec.workloads[]'' (VMap kubevirt)
       = Inr ([VStr ''a'', VStr ''b''], VMap kubevirt)
   \<and> valuesSubmatches (Expression manyMatches) = [''workloads'']
   \<and> applyModifications streamLibs kubevirt ([] @ manyMatches # []) = Err NotExactlyOneElement
   \<and> kindGate streamLibs kubevirt brokenSelector = Proceed
   \<and> rejectGate streamLibs kubevirt brokenSelector = Proceed
   \<and> ValuesSelector brokenSelector = Some ([] @ ''.spec['' # [])
   \<and> EvaluateNodes streamLibs ''.spec['' (VMap kubevirt)
       = Inl (External ''unsupported expression: .spec['')
   \<and> valuesSubmatches (Expression brokenSelector) = []
   \<and> applyModifications streamLibs kubevirt ([] @ brokenSelector # [])
       = Err (External ''unsupported expression: .spec['')"
proof -
  let ?st = "\<lparr>candidNode = VMap kubevirt, modifiedManifest = kubevirt, extractedValues = []\<rparr>"
  have r: "runRules streamLibs kubevirt [] = Ok ?st"
    by (simp add: runRules_def streamLibs_def)
  have g1: "kindGate streamLibs kubevirt noPlaceholder = Proceed"
    by (simp add: kindGate_def sample_defs)
  have g2: "rejectGate streamLibs kubevirt noPlaceholder = Proceed"
    by (simp add: rejectGate_def sample_defs)
  have s1: "ValuesSelector noPlaceholder = Some ([] @ ''.spec.configuration'' # [])"
    by (simp add: sample_defs)
  have l: "selectorLoop streamLibs expr ms 0 [] ?st = Ok ?st" for expr ms
    by simp
  have e1: "EvaluateNodes streamLibs ''.spec.configuration'' (candidNode ?st)
       = Inr ([VMap [(''featureGates'', VSeq [])]], VMap kubevirt)"
    by (simp add: sample_defs stand_in_defs)
  have m1: "valuesSubmatches (Expression noPlaceholder) = []"
    by (simp add: sample_defs valuesSubmatches_def matchAt_def isSpace_def quoted_def)
  have g3: "kindGate streamLibs kubevirt manyMatches = Proceed"
    by (simp add: kindGate_def sample_defs)
  have g4: "rejectGate streamLibs kubevirt manyMatches = Proceed"
    by (simp add: rejectGate_def sample_defs)
  have s2: "ValuesSelector manyMatches = Some ([] @ ''.spec.workloads[]'' # [])"
    by (simp add: sample_defs)
  have e2: "EvaluateNodes streamLibs ''.spec.workloads[]'' (candidNode ?st)
       = Inr ([VStr ''a'', VStr ''b''], VMap kubevirt)"
    by (simp add: sample_defs stand_in_defs)
  have m2: "valuesSubmatches (Expression manyMatches) = [''workloads'']"
    by (simp add: sample_defs valuesSubmatches_def matchAt_def isSpace_def quoted_def)
  have g5: "kindGate streamLibs kubevirt brokenSelector = Proceed"
    by (simp add: kindGate_def sample_defs)
  have g6: "rejectGate streamLibs kubevirt brokenSelector = Proceed"
    by (simp add: rejectGate_def sample_defs)
  have s3: "ValuesSelector brokenSelector = Some ([] @ ''.spec['' # [])"
    by (simp add: sample_defs)
  have e3: "EvaluateNodes streamLibs ''.spec['' (candidNode ?st)
       = Inl (External ''unsupported expression: .spec['')"
    by (simp add: sample_defs stand_in_defs)
  have m3: "valuesSubmatches (Expression brokenSelector) = []"
    by (simp add: sample_defs valuesSubmatches_def matchAt_def isSpace_def quoted_def)
  have a: "applyModifications streamLibs kubevirt ([] @ noPlaceholder # [])
       = Err (NoValuePathFound (Expression noPlaceholder))"
    using applyModifications_selector_errors[OF r g1 g2 s1 l, of "[]"] e1 m1 by blast
  have b: "applyModifications streamLibs kubevirt ([] @ manyMatches # []) = Err NotExactlyOneElement"
    using applyModifications_selector_errors[OF r g3 g4 s2 l, of "[]", THEN conjunct2, THEN conjunct1,
        rule_format, OF e2, THEN conjunct2] m2 by simp
  have c: "applyModifications streamLibs kubevirt ([] @ brokenSelector # [])
       = Err (External ''unsupported expression: .spec['')"
    using applyModifications_selector_errors[OF r g5 g6 s3 l, of "[]"] e3 by blast
  from r g1 g2 s1 e1 m1 a g3 g4 s2 e2 m2 b g5 g6 s3 e3 m3 c show ?thesis by simp
qed

section \<open>Null selections\<close>

text \<open>
  C7. When the single node a selector path selects decodes to null, the fragment
  \<open>wrapResult\<close> returns is the empty map, not null; merged into the overlay it leaves the
  overlay as it was, so this extraction stores nothing, and in particular no null, at the
  path of the placeholder.
\<close>

theorem wrapResult_null_gives_empty_map:
  assumes "length vals = 1" and "resultToAny L vals = Inr VNull"
  shows "wrapResult L vals underPath = Ok []
    \<and> (EvaluateNodes L sel (candidNode st) = Inr (vals, node) \<and> i < length matches
          \<and> wfm (extractedValues st)
        \<longrightarrow> selectorLoop L expr matches i (sel # sels) st
              = selectorLoop L expr matches (i + 1) sels (st\<lparr>candidNode := node\<rparr>))"
proof (intro conjI impI)
  show w: "wrapResult L vals underPath = Ok []" for underPath
    using assms by (simp add: wrapResult_def)
  assume h: "EvaluateNodes L sel (candidNode st) = Inr (vals, node) \<and> i < length matches
      \<and> wfm (extractedValues st)"
  then have "DeepMerge (extractedValues st) [] = extractedValues st"
    by (simp add: DeepMerge_Nil_right)
  then have "st\<lparr>candidNode := node, extractedValues := DeepMerge (extractedValues st) []\<rparr>
      = st\<lparr>candidNode := node\<rparr>"
    by simp
  with h show "selectorLoop L expr matches i (sel # sels) st
      = selectorLoop L expr matches (i + 1) sels (st\<lparr>candidNode := node\<rparr>)"
    by (simp add: w)
qed

theorem wrapResult_null_gives_empty_map_witness:
  "length [VNull] = 1
   \<and> resultToAny streamLibs [VNull] = Inr VNull
   \<and> wrapResult streamLibs [VNull] ''kubevirt.customizeComponents'' = Ok []
   \<and> EvaluateNodes streamLibs ''.spec.customizeComponents''
        (candidNode \<lparr>candidNode = VMap kubevirt, modifiedManifest = kubevirt,
                      extractedValues = [(''replicas'', VInt 2)]\<rparr>)
       = Inr ([VNull], VMap kubevirt)
   \<and> wfm [(''replicas'', VInt 2)]
   \<and> selectorLoop streamLibs [] [''kubevirt.customizeComponents''] 0 [''.spec.customizeComponents'']
        \<lparr>candidNode = VMap kubevirt, modifiedManifest = kubevirt,
          extractedValues = [(''replicas'', VInt 2)]\<rparr>
       = Ok \<lparr>candidNode = VMap kubevirt, modifiedManifest = kubevirt,
              extractedValues = [(''replicas'', VInt 2)]\<rparr>"
proof -
  let ?st = "\<lparr>candidNode = VMap kubevirt, modifiedManifest = kubevirt,
      extractedValues = [(''replicas'', VInt 2)]\<rparr>"
  have 1: "length [VNull] = 1" by simp
  have 2: "resultToAny streamLibs [VNull] = Inr VNull"
    by (simp add: resultToAny_def streamLibs_def)
  have 3: "EvaluateNodes streamLibs ''.spec.customizeComponents'' (VMap kubevirt)
      = Inr ([VNull], VMap kubevirt)"
    by (simp add: sample_defs stand_in_defs)
  have 4: "wfm [(''replicas'', VInt 2)]" by (simp add: wfm_def)
  note t = wrapResult_null_gives_empty_map[OF 1 2, where underPath = "''kubevirt.customizeComponents''"
      and sel = "''.spec.customizeComponents''" and st = ?st and node = "VMap kubevirt" and i = 0
      and matches = "[''kubevirt.customizeComponents'']" and expr = "[]" and sels = "[]"]
  have 5: "wrapResult streamLibs [VNull] ''kubevirt.customizeComponents'' = Ok []"
    by (rule t[THEN conjunct1])
  have step: "selectorLoop streamLibs [] [''kubevirt.customizeComponents''] 0 [''.spec.customizeComponents''] ?st
      = selectorLoop streamLibs [] [''kubevirt.customizeComponents''] (0 + 1) []
          (?st\<lparr>candidNode := VMap kubevirt\<rparr>)"
    by (rule t[THEN conjunct2, rule_format]) (simp add: 3 4)
  have 6: "selectorLoop streamLibs [] [''kubevirt.customizeComponents''] 0 [''.spec.customizeComponents''] ?st
      = Ok ?st"
    unfolding step by simp
  from 1 2 3 4 5 6 show ?thesis by simp
qed

section \<open>ParametrizeManifests\<close>

lemma firstFailure_append:
  "firstFailure L mods (xs @ ys) =
     (case firstFailure L mods xs of None \<Rightarrow> firstFailure L mods ys | Some f \<Rightarrow> Some f)"
  by (induction xs) (auto split: outcome.splits)

lemma firstFailure_None_iff:
  "firstFailure L mods ds = None \<longleftrightarrow> (\<forall>d \<in> set ds. \<exists>mv. applyModifications L d mods = Ok mv)"
  by (induction ds) (auto split: outcome.splits)

lemma firstFailure_Panic:
  "firstFailure L mods ds = Some (Inr p) \<Longrightarrow> \<exists>d \<in> set ds. applyModifications L d mods = Panic p"
  by (induction ds) (auto split: outcome.splits)

lemma parametrizeLoop_firstFailure:
  "(case parametrizeLoop L mods ds acc vals of
      Ok r \<Rightarrow> None
    | Err e \<Rightarrow> Some (Inl e)
    | Panic p \<Rightarrow> Some (Inr p)) = firstFailure L mods ds"
  by (induction ds arbitrary: acc vals) (auto split: outcome.splits)

lemma ParametrizeManifests_firstFailure:
  "(case ParametrizeManifests L ms mods of
      Ok r \<Rightarrow> None
    | Err e \<Rightarrow> Some (Inl e)
    | Panic p \<Rightarrow> Some (Inr p)) = firstFailure L mods (Manifests ms @ Crds ms)"
proof -
  note a = parametrizeLoop_firstFailure[of L mods "Manifests ms" "[]" "Values ms", symmetric]
  show ?thesis
  proof (cases "parametrizeLoop L mods (Manifests ms) [] (Values ms)")
    case (Ok r1)
    obtain m1 v1 where r1: "r1 = (m1, v1)" by (cases r1)
    note b = parametrizeLoop_firstFailure[of L mods "Crds ms" "[]" "CrdsValues ms", symmetric]
    show ?thesis
      using a b Ok r1
      by (cases "parametrizeLoop L mods (Crds ms) [] (CrdsValues ms)")
        (auto simp: ParametrizeManifests_def firstFailure_append)
  next
    case (Err e)
    then show ?thesis using a by (simp add: ParametrizeManifests_def firstFailure_append)
  next
    case (Panic p)
    then show ?thesis using a by (simp add: ParametrizeManifests_def firstFailure_append)
  qed
qed

text \<open>
  What holds on every input. If the rule application returns an error on a document of
  the manifest set, ordinary or schema-definition, \<open>ParametrizeManifests\<close> returns no
  manifest set at all, neither the documents transformed so far nor the overlay
  accumulated so far. It returns an error whenever no application ends in a panic; and
  when the documents processed before the failing one succeed, it returns the error of
  that document.
\<close>

lemma ParametrizeManifests_no_partial_result:
  assumes "d \<in> set (Manifests ms) \<union> set (Crds ms)" and "applyModifications L d mods = Err e"
  shows "(\<forall>r. ParametrizeManifests L ms mods \<noteq> Ok r)
    \<and> ((\<forall>x \<in> set (Manifests ms @ Crds ms). \<forall>p. applyModifications L x mods \<noteq> Panic p)
          \<longrightarrow> (\<exists>e'. ParametrizeManifests L ms mods = Err e'))
    \<and> (\<forall>earlier later.
          Manifests ms @ Crds ms = earlier @ d # later
          \<and> (\<forall>x \<in> set earlier. \<exists>mv. applyModifications L x mods = Ok mv)
          \<longrightarrow> ParametrizeManifests L ms mods = Err e)"
proof (intro conjI allI impI)
  let ?docs = "Manifests ms @ Crds ms"
  note ff = ParametrizeManifests_firstFailure[of L ms mods]
  have "\<not> (\<forall>x \<in> set ?docs. \<exists>mv. applyModifications L x mods = Ok mv)"
  proof
    assume "\<forall>x \<in> set ?docs. \<exists>mv. applyModifications L x mods = Ok mv"
    moreover have "d \<in> set ?docs" using assms(1) by simp
    ultimately obtain mv where "applyModifications L d mods = Ok mv" by blast
    with assms(2) show False by simp
  qed
  then have some: "firstFailure L mods ?docs \<noteq> None"
    by (simp only: firstFailure_None_iff) simp
  show "ParametrizeManifests L ms mods \<noteq> Ok r" for r
    using ff some by (auto split: outcome.splits)
  show "\<exists>e'. ParametrizeManifests L ms mods = Err e'"
    if "\<forall>x \<in> set ?docs. \<forall>p. applyModifications L x mods \<noteq> Panic p"
  proof (cases "ParametrizeManifests L ms mods")
    case (Ok r)
    then show ?thesis using ff some by simp
  next
    case (Err e')
    then show ?thesis by blast
  next
    case (Panic p)
    then have "firstFailure L mods ?docs = Some (Inr p)" using ff by simp
    from firstFailure_Panic[OF this] that show ?thesis by blast
  qed
  show "ParametrizeManifests L ms mods = Err e"
    if h: "?docs = earlier @ d # later
      \<and> (\<forall>x \<in> set earlier. \<exists>mv. applyModifications L x mods = Ok mv)" for earlier later
  proof -
    have "firstFailure L mods earlier = None"
      using h by (simp add: firstFailure_None_iff)
    then have "firstFailure L mods ?docs = Some (Inl e)"
      using h assms(2) by (simp add: firstFailure_append)
    then show ?thesis using ff by (auto split: outcome.splits)
  qed
qed

lemma rolebinding_noPlaceholder:
  "applyModifications streamLibs rolebinding [noPlaceholder]
     = Err (NoValuePathFound (Expression noPlaceholder))"
  by (simp add: sample_defs stand_in_defs engine_defs)

lemma ParametrizeManifests_first_error:
  "ParametrizeManifests streamLibs release [noPlaceholder]
     = Err (NoValuePathFound (Expression noPlaceholder))"
proof -
  have 1: "rolebinding \<in> set (Manifests release) \<union> set (Crds release)"
    by (simp add: release_def)
  have docs: "Manifests release @ Crds release = [] @ rolebinding # [kubevirt]"
    by (simp add: release_def)
  show ?thesis
    by (rule ParametrizeManifests_no_partial_result[OF 1 rolebinding_noPlaceholder,
          THEN conjunct2, THEN conjunct2, rule_format, of "[]" "[kubevirt]"])
      (simp add: docs)
qed

text \<open>
  C6. The claim is that \<open>ParametrizeManifests\<close> returns an error whenever the rule
  application fails on a document, and the code means to: it returns
  \<^verbatim>\<open>nil, err\<close> at the first error, "not continuing on error". It does not get there on this
  input. The first rule is for \<^verbatim>\<open>KubeVirt\<close> documents and has two selector paths for one
  placeholder reference; the second rule has a selector path and no placeholder
  reference. On the \<^verbatim>\<open>RoleBinding\<close> the application returns the error "no value path
  found". On the \<^verbatim>\<open>KubeVirt\<close> document, which comes first, \<^verbatim>\<open>matches[i]\<close> is read beyond
  the matches, and \<open>ParametrizeManifests\<close> ends in that panic instead of returning an
  error.
\<close>

theorem ParametrizeManifests_panics_before_error:
  "Manifests kubevirtFirst = [kubevirt, rolebinding]
   \<and> Crds kubevirtFirst = []
   \<and> applyModifications streamLibs rolebinding [kubevirtTwoSelectors, noPlaceholder]
       = Err (NoValuePathFound (Expression noPlaceholder))
   \<and> applyModifications streamLibs kubevirt [kubevirtTwoSelectors, noPlaceholder]
       = Panic IndexOutOfRange
   \<and> ParametrizeManifests streamLibs kubevirtFirst [kubevirtTwoSelectors, noPlaceholder]
       = Panic IndexOutOfRange"
proof -
  have 1: "applyModifications streamLibs rolebinding [kubevirtTwoSelectors, noPlaceholder]
      = Err (NoValuePathFound (Expression noPlaceholder))"
    by (simp add: sample_defs stand_in_defs engine_defs)
  have 2: "applyModifications streamLibs kubevirt [kubevirtTwoSelectors, noPlaceholder]
      = Panic IndexOutOfRange"
    by (simp add: sample_defs stand_in_defs engine_defs)
  have 3: "ParametrizeManifests streamLibs kubevirtFirst [kubevirtTwoSelectors, noPlaceholder]
      = Panic IndexOutOfRange"
    by (simp add: ParametrizeManifests_def kubevirtFirst_def 2)
  show ?thesis using 1 2 3 by (simp add: kubevirtFirst_def)
qed

section \<open>createTemplates\<close>

lemma joinDocs_snoc: "xs \<noteq> [] \<Longrightarrow> joinDocs (xs @ [y]) = joinDocs xs @ documentSeparator @ y"
  by (induction xs rule: joinDocs.induct) auto

lemma kinds_snoc: "kinds (ds @ [d]) = kinds ds @ (case kindOf d of Some k \<Rightarrow> [k] | None \<Rightarrow> [])"
  by (induction ds) (auto simp: kinds_def map_filter_simps split: option.splits)

lemma kinds_Cons: "kinds (d # ds) = (case kindOf d of Some k \<Rightarrow> [k] | None \<Rightarrow> []) @ kinds ds"
  by (auto simp: kinds_def map_filter_simps split: option.splits)

lemma in_kinds_iff: "k \<in> set (kinds ds) \<longleftrightarrow> (\<exists>d \<in> set ds. kindOf d = Some k)"
  by (induction ds) (auto simp: kinds_Cons kinds_def map_filter_simps split: option.splits)

lemma filter_kind_nonempty: "k \<in> set (kinds ds) \<longleftrightarrow> filter (\<lambda>d. kindOf d = Some k) ds \<noteq> []"
  by (auto simp: in_kinds_iff filter_empty_conv)

lemma unitFor_snoc_same:
  assumes "kindOf d = Some k" and "marshal d = Inr t" and "k \<in> set (kinds seen)"
  shows "unitFor marshal unquote (seen @ [d]) k
     = (unitFor marshal unquote seen k)
         \<lparr>Data := Data (unitFor marshal unquote seen k) @ documentSeparator @ unquote t\<rparr>"
  using assms by (simp add: unitFor_def joinDocs_snoc rendered_def filter_kind_nonempty)

lemma unitFor_snoc_new:
  assumes "kindOf d = Some k" and "marshal d = Inr t" and "k \<notin> set (kinds seen)"
  shows "unitFor marshal unquote (seen @ [d]) k
     = \<lparr>Name = ''templates/'' @ ToLower k @ ''.yaml'', Data = unquote t\<rparr>"
  using assms by (simp add: unitFor_def rendered_def filter_kind_nonempty)

lemma unitFor_snoc_other:
  assumes "kindOf d = Some k" and "k' \<noteq> k"
  shows "unitFor marshal unquote (seen @ [d]) k' = unitFor marshal unquote seen k'"
  using assms by (simp add: unitFor_def)

lemma grouped_step:
  assumes g: "grouped marshal unquote seen T" and k: "kindOf d = Some k" and m: "marshal d = Inr t"
  shows "grouped marshal unquote (seen @ [d])
     (case map_of T k of
        Some existingTemplate \<Rightarrow>
          AList.update k (existingTemplate\<lparr>Data := Data existingTemplate @ documentSeparator @ unquote t\<rparr>) T
      | None \<Rightarrow> AList.update k \<lparr>Name = ''templates/'' @ ToLower k @ ''.yaml'', Data = unquote t\<rparr> T)"
proof (cases "k \<in> set (kinds seen)")
  case True
  then have ex: "map_of T k = Some (unitFor marshal unquote seen k)"
    using g by (simp add: grouped_def)
  show ?thesis
    unfolding ex option.case grouped_def
  proof (intro conjI allI)
    show "distinct (map fst (AList.update k ((unitFor marshal unquote seen k)
        \<lparr>Data := Data (unitFor marshal unquote seen k) @ documentSeparator @ unquote t\<rparr>) T))"
      using g by (simp add: grouped_def distinct_update)
    fix k'
    show "map_of (AList.update k ((unitFor marshal unquote seen k)
        \<lparr>Data := Data (unitFor marshal unquote seen k) @ documentSeparator @ unquote t\<rparr>) T) k'
      = (if k' \<in> set (kinds (seen @ [d])) then Some (unitFor marshal unquote (seen @ [d]) k') else None)"
    proof (cases "k' = k")
      case True
      then show ?thesis
        using unitFor_snoc_same[where marshal = marshal and unquote = unquote, OF k m \<open>k \<in> set (kinds seen)\<close>]
        by (simp add: update_conv' kinds_snoc k)
    next
      case False
      then show ?thesis
        using g unitFor_snoc_other[where marshal = marshal and unquote = unquote and seen = seen, OF k False]
        by (simp add: update_conv' kinds_snoc k grouped_def)
    qed
  qed
next
  case False
  then have ex: "map_of T k = None"
    using g by (simp add: grouped_def)
  show ?thesis
    unfolding ex option.case grouped_def
  proof (intro conjI allI)
    show "distinct (map fst (AList.update k \<lparr>Name = ''templates/'' @ ToLower k @ ''.yaml'', Data = unquote t\<rparr> T))"
      using g by (simp add: grouped_def distinct_update)
    fix k'
    show "map_of (AList.update k \<lparr>Name = ''templates/'' @ ToLower k @ ''.yaml'', Data = unquote t\<rparr> T) k'
      = (if k' \<in> set (kinds (seen @ [d])) then Some (unitFor marshal unquote (seen @ [d]) k') else None)"
    proof (cases "k' = k")
      case True
      then show ?thesis
        using unitFor_snoc_new[where marshal = marshal and unquote = unquote, OF k m False]
        by (simp add: update_conv' kinds_snoc k)
    next
      case False
      then show ?thesis
        using g unitFor_snoc_other[where marshal = marshal and unquote = unquote and seen = seen, OF k False]
        by (simp add: update_conv' kinds_snoc k grouped_def)
    qed
  qed
qed

lemma templateLoop_grouped:
  "grouped marshal unquote seen T \<Longrightarrow> templateLoop marshal unquote i rest T = Ok T'
    \<Longrightarrow> grouped marshal unquote (seen @ rest) T'"
proof (induction rest arbitrary: seen T i)
  case Nil
  then show ?case by simp
next
  case (Cons d rest)
  from Cons.prems(2) obtain t k where m: "marshal d = Inr t" and k: "kindOf d = Some k"
    by (auto split: sum.splits option.splits simp: Let_def)
  let ?T1 = "case map_of T k of
        Some existingTemplate \<Rightarrow>
          AList.update k (existingTemplate\<lparr>Data := Data existingTemplate @ documentSeparator @ unquote t\<rparr>) T
      | None \<Rightarrow> AList.update k \<lparr>Name = ''templates/'' @ ToLower k @ ''.yaml'', Data = unquote t\<rparr> T"
  have loop: "templateLoop marshal unquote (i + 1) rest ?T1 = Ok T'"
    using Cons.prems(2) by (simp add: m k Let_def split: option.splits)
  have "grouped marshal unquote ((seen @ [d]) @ rest) T'"
    by (rule Cons.IH[OF grouped_step[OF Cons.prems(1) k m] loop])
  then show ?case by simp
qed

lemma grouped_mset:
  assumes "grouped marshal unquote docs T"
  shows "mset (map snd T) = mset (map (unitFor marshal unquote docs) (remdups (kinds docs)))"
proof -
  let ?U = "map (\<lambda>k. (k, unitFor marshal unquote docs k)) (remdups (kinds docs))"
  have dU: "distinct (map fst ?U)" by (simp add: comp_def)
  have dT: "distinct (map fst T)" using assms by (simp add: grouped_def)
  have "map_of ?U k = map_of T k" for k
    using assms by (simp add: grouped_def map_of_map_restrict restrict_map_def)
  then have "map_of ?U = map_of T" by (rule ext)
  then have "set T = set ?U"
    using map_of_inject_set[OF dT dU] by simp
  moreover have "distinct T" using dT distinct_map by blast
  moreover have "distinct ?U" using dU distinct_map by blast
  ultimately have "mset T = mset ?U"
    using set_eq_iff_mset_eq_distinct by blast
  then have "mset (map snd T) = mset (map snd ?U)" by (metis mset_map)
  then show ?thesis by (simp add: comp_def)
qed

text \<open>
  C8, as the claim states it, fails in its second half: the template list is filled by
  ranging over a Go map, so two runs over the same input may list the same units in a
  different order. Here are the runs that visit the two entries one way and the other.
\<close>

theorem createTemplates_order_counterexample:
  "templateLoop showDoc id 0 [service1, deployment, service2] []
     = Ok [(''Service'',
            \<lparr>Name = ''templates/service.yaml'',
              Data = ''kind: Service'' @ [CHR 0x0A] @ ''name: api'' @ [CHR 0x0A]
                     @ [CHR 0x0A] @ ''---'' @ [CHR 0x0A]
                     @ ''kind: Service'' @ [CHR 0x0A] @ ''name: web'' @ [CHR 0x0A]\<rparr>),
           (''Deployment'',
            \<lparr>Name = ''templates/deployment.yaml'',
              Data = ''kind: Deployment'' @ [CHR 0x0A] @ ''name: api'' @ [CHR 0x0A]\<rparr>)]
   \<and> createTemplates showDoc id id \<lparr>Templates = []\<rparr> [service1, deployment, service2]
     = Ok \<lparr>Templates =
            [\<lparr>Name = ''templates/service.yaml'',
              Data = ''kind: Service'' @ [CHR 0x0A] @ ''name: api'' @ [CHR 0x0A]
                     @ [CHR 0x0A] @ ''---'' @ [CHR 0x0A]
                     @ ''kind: Service'' @ [CHR 0x0A] @ ''name: web'' @ [CHR 0x0A]\<rparr>,
             \<lparr>Name = ''templates/deployment.yaml'',
              Data = ''kind: Deployment'' @ [CHR 0x0A] @ ''name: api'' @ [CHR 0x0A]\<rparr>]\<rparr>
   \<and> createTemplates showDoc id rev \<lparr>Templates = []\<rparr> [service1, deployment, service2]
     = Ok \<lparr>Templates =
            [\<lparr>Name = ''templates/deployment.yaml'',
              Data = ''kind: Deployment'' @ [CHR 0x0A] @ ''name: api'' @ [CHR 0x0A]\<rparr>,
             \<lparr>Name = ''templates/service.yaml'',
              Data = ''kind: Service'' @ [CHR 0x0A] @ ''name: api'' @ [CHR 0x0A]
                     @ [CHR 0x0A] @ ''---'' @ [CHR 0x0A]
                     @ ''kind: Service'' @ [CHR 0x0A] @ ''name: web'' @ [CHR 0x0A]\<rparr>]\<rparr>
   \<and> createTemplates showDoc id id \<lparr>Templates = []\<rparr> [service1, deployment, service2]
     \<noteq> createTemplates showDoc id rev \<lparr>Templates = []\<rparr> [service1, deployment, service2]"
  by (simp add: createTemplates_def showDoc_def service1_def service2_def deployment_def
      kindOf_def common_Kind_def ToLower_def toLowerChar_def documentSeparator_def)

text \<open>
  C8, amended. When \<open>createTemplates\<close> succeeds, the template list holds exactly one unit
  for each kind among the documents: its file name comes from the lower-cased kind and
  its data is the documents of that kind, in input order, joined by the document
  separator. Which units there are does not depend on the run: another run over the same
  input succeeds too and lists the same units, in an order that may differ.
\<close>

theorem createTemplates_units:
  assumes "\<forall>ts. mset (rangeOrder ts) = mset ts" and "\<forall>ts. mset (rangeOrder' ts) = mset ts"
    and "createTemplates marshal unquote rangeOrder ch docs = Ok ch1"
  shows "mset (Templates ch1) = mset (map (unitFor marshal unquote docs) (remdups (kinds docs)))
    \<and> (\<exists>ch2. createTemplates marshal unquote rangeOrder' ch docs = Ok ch2
          \<and> mset (Templates ch2) = mset (Templates ch1))"
proof -
  from assms(3) obtain T where T: "templateLoop marshal unquote 0 docs [] = Ok T"
    and ch1: "ch1 = ch\<lparr>Templates := map snd (rangeOrder T)\<rparr>"
    by (auto simp: createTemplates_def split: outcome.splits)
  have "grouped marshal unquote [] []" by (simp add: grouped_def kinds_def map_filter_simps)
  from templateLoop_grouped[OF this T] have g: "grouped marshal unquote docs T" by simp
  have 1: "mset (map snd (rangeOrder T)) = mset (map snd T)"
    using assms(1) by (metis mset_map)
  have 2: "mset (map snd (rangeOrder' T)) = mset (map snd T)"
    using assms(2) by (metis mset_map)
  have a: "mset (Templates ch1) = mset (map (unitFor marshal unquote docs) (remdups (kinds docs)))"
    using 1 grouped_mset[OF g] by (simp add: ch1)
  have b: "createTemplates marshal unquote rangeOrder' ch docs
      = Ok (ch\<lparr>Templates := map snd (rangeOrder' T)\<rparr>)"
    by (simp add: createTemplates_def T)
  have c: "mset (Templates (ch\<lparr>Templates := map snd (rangeOrder' T)\<rparr>)) = mset (Templates ch1)"
    using 1 2 by (simp add: ch1)
  from a b c show ?thesis by blast
qed

theorem createTemplates_units_witness:
  "(\<forall>ts :: (string \<times> chart_File) list. mset (rev ts) = mset ts)
   \<and> (\<forall>ts :: (string \<times> chart_File) list. mset (id ts) = mset ts)
   \<and> createTemplates showDoc id rev \<lparr>Templates = []\<rparr> [service1, deployment, service2]
       = Ok \<lparr>Templates =
              [unitFor showDoc id [service1, deployment, service2] ''Deployment'',
               unitFor showDoc id [service1, deployment, service2] ''Service'']\<rparr>
   \<and> mset [unitFor showDoc id [service1, deployment, service2] ''Deployment'',
            unitFor showDoc id [service1, deployment, service2] ''Service'']
       = mset (map (unitFor showDoc id [service1, deployment, service2])
                 (remdups (kinds [service1, deployment, service2])))
   \<and> (\<exists>ch2. createTemplates showDoc id id \<lparr>Templates = []\<rparr> [service1, deployment, service2] = Ok ch2
         \<and> mset (Templates ch2)
             = mset [unitFor showDoc id [service1, deployment, service2] ''Deployment'',
                     unitFor showDoc id [service1, deployment, service2] ''Service''])"
proof -
  let ?docs = "[service1, deployment, service2]"
  let ?c = "\<lparr>Templates = [unitFor showDoc id ?docs ''Deployment'', unitFor showDoc id ?docs ''Service'']\<rparr>"
  have p1: "\<forall>ts :: (string \<times> chart_File) list. mset (rev ts) = mset ts" by simp
  have p2: "\<forall>ts :: (string \<times> chart_File) list. mset (id ts) = mset ts" by simp
  have run: "createTemplates showDoc id rev \<lparr>Templates = []\<rparr> ?docs = Ok ?c"
    by (simp add: createTemplates_def showDoc_def service1_def service2_def deployment_def
        kindOf_def common_Kind_def ToLower_def toLowerChar_def documentSeparator_def
        unitFor_def rendered_def)
  note t = createTemplates_units[OF p1 p2 run]
  have a: "mset (Templates ?c) = mset (map (unitFor showDoc id ?docs) (remdups (kinds ?docs)))"
    by (rule t[THEN conjunct1])
  have b: "\<exists>ch2. createTemplates showDoc id id \<lparr>Templates = []\<rparr> ?docs = Ok ch2
      \<and> mset (Templates ch2) = mset (Templates ?c)"
    by (rule t[THEN conjunct2])
  have sel: "Templates ?c = [unitFor showDoc id ?docs ''Deployment'', unitFor showDoc id ?docs ''Service'']"
    by simp
  from p1 p2 run a b show ?thesis unfolding sel by blast
qed

end
